theory Spec2Isabelle
  imports Main "HOL-Library.Sublist"
begin

text \<open>
  async-file wraps the callback functions of Node's \<open>fs\<close> module in promises and adds
  a few functions of its own. The repository holds two versions of the module: the first
  API (src/index.ts), built on \<open>thunk\<close>, and the second API (src/unnamed/part_001),
  built on \<open>promisify\<close>, which adds \<open>createDirectory\<close> and a recursive \<open>delete\<close>.
  Functions of the second API keep their names here (\<open>write\<close> is written
  \<open>write'\<close>); functions of the first API carry the prefix \<open>legacy_\<close>.
\<close>

section \<open>Values, errors and promises\<close>

text \<open>
  The wrappers of async-file pass JavaScript values through untouched. The values that
  occur are numbers, strings, buffers, the result of a metadata query, function objects,
  the \<open>arguments\<close> object of a call (an array) and option objects.
\<close>

record stats =
  isDirectory :: bool
  isFile :: bool
  isSymbolicLink :: bool

datatype jsval =
    JUndefined
  | JNull
  | JNum int
  | JStr string
  | JBuf "nat list"
  | JStats stats
  | JFunc string
  | JArr "jsval list"
  | JObj "(string \<times> jsval) list"

text \<open>
  An optional parameter of a TypeScript signature: left out (\<open>undefined\<close>), passed as
  \<open>null\<close>, or given.
\<close>

datatype 'a optional = Undefined | Null | Given 'a

definition opt_jsval :: "('a \<Rightarrow> jsval) \<Rightarrow> 'a optional \<Rightarrow> jsval" where
  "opt_jsval f v = (case v of Undefined \<Rightarrow> JUndefined | Null \<Rightarrow> JNull | Given x \<Rightarrow> f x)"

text \<open>
  An error object. The platform's errors carry a \<open>code\<close> (\<open>'ENOENT'\<close>,
  \<open>'EEXIST'\<close>, ...), the system call and the path; \<open>new Error(message)\<close> has a message
  and no \<open>code\<close>.
\<close>

datatype error =
    SysError string string string
  | PlainError string

fun code :: "error \<Rightarrow> string option" where
  "code (SysError c syscall p) = Some c"
| "code (PlainError m) = None"

text \<open>
  A promise is pending until its executor calls \<open>resolve\<close> or \<open>reject\<close>; the first
  call settles it and later calls change nothing.
\<close>

datatype 'a promise = Pending | Resolved 'a | Rejected error

definition resolve :: "'a \<Rightarrow> 'a promise \<Rightarrow> 'a promise" where
  "resolve v p = (case p of Pending \<Rightarrow> Resolved v | _ \<Rightarrow> p)"

definition reject :: "error \<Rightarrow> 'a promise \<Rightarrow> 'a promise" where
  "reject e p = (case p of Pending \<Rightarrow> Rejected e | _ \<Rightarrow> p)"

definition new_Promise :: "('a promise \<Rightarrow> 'a promise) \<Rightarrow> 'a promise" where
  "new_Promise executor = executor Pending"

definition settled :: "'a promise \<Rightarrow> bool" where
  "settled p = (case p of Pending \<Rightarrow> False | _ \<Rightarrow> True)"

section \<open>The platform: Node's fs and path modules, and rimraf\<close>

text \<open>
  The primitives are not code of this repository. Each is a parameter: a function of the
  state \<open>'s\<close> of the file system that yields what the primitive passes to its callback
  (the error, or the result) and the state it leaves. The metadata queries and the
  permission check leave the state as it is. \<open>fs_other\<close> stands for the primitives the
  wrappers only pass through (read, write, readFile, writeFile, appendFile). Every
  primitive calls its callback once, and nothing else changes the file system between
  the calls of one operation.
\<close>

datatype prim =
    FsAppendFile | FsRead | FsReadFile | FsStat | FsUnlink | FsWrite | FsWriteFile

record 's platform =
  fs_access :: "string \<Rightarrow> jsval \<Rightarrow> 's \<Rightarrow> error option"
  fs_lstat :: "string \<Rightarrow> 's \<Rightarrow> error + stats"
  fs_stat :: "string \<Rightarrow> 's \<Rightarrow> error + stats"
  fs_mkdir :: "string \<Rightarrow> jsval \<Rightarrow> 's \<Rightarrow> error option \<times> 's"
  fs_unlink :: "string \<Rightarrow> 's \<Rightarrow> error option \<times> 's"
  rimraf :: "string \<Rightarrow> 's \<Rightarrow> error option \<times> 's"
  fs_other :: "prim \<Rightarrow> jsval list \<Rightarrow> 's \<Rightarrow> (error + jsval) \<times> 's"
  path_resolve :: "string \<Rightarrow> string"
  path_dirname :: "string \<Rightarrow> string"

text \<open>
  \<open>target.apply(context, args.concat([callback]))\<close> for a primitive passed as a function
  value: the pair is the callback's \<open>(err, result)\<close>. A path that is not a string is
  refused by Node with a type error.
\<close>

definition apply_target ::
  "'s platform \<Rightarrow> prim \<Rightarrow> jsval list \<Rightarrow> 's \<Rightarrow> (error + jsval) \<times> 's" where
  "apply_target env target args s =
     (case target of
        FsStat \<Rightarrow>
          (case args of
             JStr p # _ \<Rightarrow>
               (case fs_stat env p s of Inl e \<Rightarrow> (Inl e, s) | Inr st \<Rightarrow> (Inr (JStats st), s))
           | _ \<Rightarrow> (Inl (PlainError ''path must be a string''), s))
      | FsUnlink \<Rightarrow>
          (case args of
             JStr p # _ \<Rightarrow>
               (case fs_unlink env p s of
                  (Some e, s') \<Rightarrow> (Inl e, s')
                | (None, s') \<Rightarrow> (Inr JUndefined, s'))
           | _ \<Rightarrow> (Inl (PlainError ''path must be a string''), s))
      | _ \<Rightarrow> fs_other env target args s)"

section \<open>The first API (src/index.ts)\<close>

text \<open>
  \<open>thunk\<close> wraps a callback-taking primitive. The callback is an arrow function, so
  the \<open>arguments\<close> it hands to the resolver are those of \<open>thunk\<close> itself:
  \<open>[target, args, context, resolver]\<close>. With a resolver, the callback calls it and
  drops what it returns: neither \<open>resolve\<close> nor \<open>reject\<close> is called.
\<close>

definition thunk ::
  "'s platform \<Rightarrow> prim \<Rightarrow> jsval list \<Rightarrow> jsval \<Rightarrow> (jsval list \<Rightarrow> jsval) option \<Rightarrow> 's
    \<Rightarrow> jsval promise \<times> 's" where
  "thunk env target args context resolver s =
     (let arguments = [JFunc ''target'', JArr args, context,
                       (case resolver of None \<Rightarrow> JUndefined | Some r \<Rightarrow> JFunc ''resolver'')];
          (cb, s') = apply_target env target args s
      in (new_Promise (\<lambda>p.
            case cb of
              Inl err \<Rightarrow> reject err p
            | Inr result \<Rightarrow>
                (case resolver of
                   Some r \<Rightarrow> (let dropped = r arguments in p)
                 | None \<Rightarrow> resolve result p)), s'))"

text \<open>\<open>arguments[i]\<close>: \<open>undefined\<close> beyond the end.\<close>

definition arg :: "jsval list \<Rightarrow> nat \<Rightarrow> jsval" where
  "arg arguments i = (if i < length arguments then arguments ! i else JUndefined)"

definition legacy_stat :: "'s platform \<Rightarrow> string \<Rightarrow> 's \<Rightarrow> jsval promise \<times> 's" where
  "legacy_stat env path s = thunk env FsStat [JStr path] JUndefined None s"

definition legacy_unlink :: "'s platform \<Rightarrow> string \<Rightarrow> 's \<Rightarrow> jsval promise \<times> 's" where
  "legacy_unlink env path s = thunk env FsUnlink [JStr path] JUndefined None s"

definition legacy_read ::
  "'s platform \<Rightarrow> int \<Rightarrow> nat list \<Rightarrow> int \<Rightarrow> int \<Rightarrow> int \<Rightarrow> 's \<Rightarrow> jsval promise \<times> 's" where
  "legacy_read env fd buffer offset len position s =
     thunk env FsRead [JNum fd, JBuf buffer, JNum offset, JNum len, JNum position] JNull
       (Some (\<lambda>arguments. JObj [(''bytesRead'', arg arguments 1), (''buffer'', arg arguments 2)])) s"

definition legacy_write ::
  "'s platform \<Rightarrow> int \<Rightarrow> nat list \<Rightarrow> int \<Rightarrow> int \<Rightarrow> int optional \<Rightarrow> 's \<Rightarrow> jsval promise \<times> 's" where
  "legacy_write env fd buffer offset len position s =
     thunk env FsWrite
       ([JNum fd, JBuf buffer, JNum offset, JNum len] @
        (case position of Undefined \<Rightarrow> [] | Null \<Rightarrow> [JNull] | Given n \<Rightarrow> [JNum n])) JNull
       (Some (\<lambda>arguments. JObj [(''written'', arg arguments 1), (''buffer'', arg arguments 2)])) s"

text \<open>The numeric enums and the table \<open>openFlags\<close>.\<close>

datatype Encoding =
    Encoding_ascii | Encoding_base64 | Encoding_binary | Encoding_hex | Encoding_ucs2
  | Encoding_utf16le | Encoding_utf8

fun Encoding_name :: "Encoding \<Rightarrow> string" where
  "Encoding_name Encoding_ascii = ''ascii''"
| "Encoding_name Encoding_base64 = ''base64''"
| "Encoding_name Encoding_binary = ''binary''"
| "Encoding_name Encoding_hex = ''hex''"
| "Encoding_name Encoding_ucs2 = ''ucs2''"
| "Encoding_name Encoding_utf16le = ''utf16le''"
| "Encoding_name Encoding_utf8 = ''utf8''"

datatype OpenFlags =
    OpenFlags_read | OpenFlags_readWrite | OpenFlags_readSync | OpenFlags_readWriteSync
  | OpenFlags_write | OpenFlags_writeNoOverwrite | OpenFlags_create
  | OpenFlags_createNoOverwrite | OpenFlags_append | OpenFlags_appendNoOverwrite
  | OpenFlags_appendRead | OpenFlags_appendReadNoOverwrite

fun openFlags :: "OpenFlags \<Rightarrow> string" where
  "openFlags OpenFlags_read = ''r''"
| "openFlags OpenFlags_readWrite = ''r+''"
| "openFlags OpenFlags_readSync = ''rs''"
| "openFlags OpenFlags_readWriteSync = ''rs+''"
| "openFlags OpenFlags_write = ''w''"
| "openFlags OpenFlags_writeNoOverwrite = ''wx''"
| "openFlags OpenFlags_create = ''w+''"
| "openFlags OpenFlags_createNoOverwrite = ''wx+''"
| "openFlags OpenFlags_append = ''a''"
| "openFlags OpenFlags_appendNoOverwrite = ''ax''"
| "openFlags OpenFlags_appendRead = ''a+''"
| "openFlags OpenFlags_appendReadNoOverwrite = ''ax+''"

text \<open>
  \<open>createOptions\<close> fills an object property by property; a property that is not set is
  absent. The flags reach it already defaulted, so they are a number of the enum or a
  string. \<open>if (mode)\<close> is false for the empty string.
\<close>

definition createOptions ::
  "(Encoding + string) optional \<Rightarrow> (OpenFlags + string) \<Rightarrow> string optional
    \<Rightarrow> (string \<times> jsval) list" where
  "createOptions encoding flags mode =
     (let encoding' = (case encoding of Undefined \<Rightarrow> Inl Encoding_utf8 | Null \<Rightarrow> Inl Encoding_utf8 | Given e \<Rightarrow> e);
          o1 = (case encoding' of
                  Inl n \<Rightarrow> [(''encoding'', JStr (Encoding_name n))]
                | Inr str \<Rightarrow> [(''encoding'', JStr str)]);
          o2 = (case flags of
                  Inl n \<Rightarrow> o1 @ [(''flags'', JStr (openFlags n))]
                | Inr str \<Rightarrow> o1 @ [(''flags'', JStr str)]);
          o3 = (case mode of Given (c # cs) \<Rightarrow> o2 @ [(''mode'', JStr (c # cs))] | _ \<Rightarrow> o2)
      in o3)"

text \<open>\<open>options.flags[0] === 'a'\<close>: the first character of the string, when it has one.\<close>

definition first_is_a :: "jsval \<Rightarrow> bool" where
  "first_is_a v = (case v of JStr (c # cs) \<Rightarrow> c = CHR ''a'' | _ \<Rightarrow> False)"

definition property :: "(string \<times> jsval) list \<Rightarrow> string \<Rightarrow> jsval" where
  "property obj k = (case map_of obj k of None \<Rightarrow> JUndefined | Some v \<Rightarrow> v)"

definition legacy_writeTextFile ::
  "'s platform \<Rightarrow> jsval \<Rightarrow> string \<Rightarrow> (Encoding + string) optional
    \<Rightarrow> (OpenFlags + string) optional \<Rightarrow> string optional \<Rightarrow> 's \<Rightarrow> jsval promise \<times> 's" where
  "legacy_writeTextFile env file data encoding flags mode s =
     (let flags' = (case flags of Undefined \<Rightarrow> Inl OpenFlags_write | Null \<Rightarrow> Inl OpenFlags_write | Given f \<Rightarrow> f);
          options = createOptions encoding flags' mode
      in if first_is_a (property options ''flags'')
         then thunk env FsAppendFile [file, JStr data, JObj options] JUndefined None s
         else thunk env FsWriteFile [file, JStr data, JObj options] JUndefined None s)"

definition legacy_del :: "'s platform \<Rightarrow> string \<Rightarrow> 's \<Rightarrow> jsval promise \<times> 's" where
  "legacy_del env path s = legacy_unlink env path s"

text \<open>
  \<open>exists\<close> is an async function: it awaits \<open>stat\<close>, and its \<open>catch\<close> turns the
  code \<open>'ENOENT'\<close> into \<open>false\<close> and throws every other error on.
\<close>

definition legacy_exists :: "'s platform \<Rightarrow> string \<Rightarrow> 's \<Rightarrow> bool promise \<times> 's" where
  "legacy_exists env path s =
     (case legacy_stat env path s of
        (Resolved v, s') \<Rightarrow> (Resolved True, s')
      | (Rejected err, s') \<Rightarrow>
          (if code err = Some ''ENOENT'' then (Resolved False, s') else (Rejected err, s'))
      | (Pending, s') \<Rightarrow> (Pending, s'))"

section \<open>The second API (src/unnamed/part_001)\<close>

text \<open>
  \<open>promisify\<close> is \<open>thunk\<close> with the resolver's value passed to \<open>resolve\<close>. The
  \<open>arguments\<close> are still those of \<open>promisify\<close> itself.
\<close>

definition promisify ::
  "'s platform \<Rightarrow> prim \<Rightarrow> jsval list \<Rightarrow> jsval \<Rightarrow> (jsval list \<Rightarrow> jsval) option \<Rightarrow> 's
    \<Rightarrow> jsval promise \<times> 's" where
  "promisify env target args context resolver s =
     (let arguments = [JFunc ''target'', JArr args, context,
                       (case resolver of None \<Rightarrow> JUndefined | Some r \<Rightarrow> JFunc ''resolver'')];
          (cb, s') = apply_target env target args s
      in (new_Promise (\<lambda>p.
            case cb of
              Inl err \<Rightarrow> reject err p
            | Inr result \<Rightarrow>
                (case resolver of
                   Some r \<Rightarrow> resolve (r arguments) p
                 | None \<Rightarrow> resolve result p)), s'))"

definition access :: "'s platform \<Rightarrow> string \<Rightarrow> jsval \<Rightarrow> 's \<Rightarrow> bool promise" where
  "access env path mode s =
     new_Promise (\<lambda>p.
       case fs_access env path mode s of
         None \<Rightarrow> resolve True p
       | Some err \<Rightarrow> resolve False p)"

definition read ::
  "'s platform \<Rightarrow> int \<Rightarrow> nat list \<Rightarrow> int \<Rightarrow> int \<Rightarrow> int \<Rightarrow> 's \<Rightarrow> jsval promise \<times> 's" where
  "read env fd buffer offset len position s =
     promisify env FsRead [JNum fd, JBuf buffer, JNum offset, JNum len, JNum position] JNull
       (Some (\<lambda>arguments. JObj [(''bytesRead'', arg arguments 1), (''buffer'', arg arguments 2)])) s"

definition write' ::
  "'s platform \<Rightarrow> jsval list \<Rightarrow> 's \<Rightarrow> jsval promise \<times> 's" where
  "write' env args s =
     promisify env FsWrite args JNull
       (Some (\<lambda>arguments. JObj [(''written'', arg arguments 1), (''buffer'', arg arguments 2)])) s"

definition writeTextFile ::
  "'s platform \<Rightarrow> jsval \<Rightarrow> string \<Rightarrow> string optional \<Rightarrow> string optional \<Rightarrow> jsval
    \<Rightarrow> 's \<Rightarrow> jsval promise \<times> 's" where
  "writeTextFile env file data encoding flags mode s =
     (let encoding' = (case encoding of Undefined \<Rightarrow> Given ''utf8'' | e \<Rightarrow> e);
          flags' = (case flags of Undefined \<Rightarrow> ''w'' | Null \<Rightarrow> ''w'' | Given f \<Rightarrow> f);
          options = [(''encoding'', opt_jsval JStr encoding'), (''flags'', JStr flags'),
                     (''mode'', mode)]
      in if first_is_a (JStr flags')
         then promisify env FsAppendFile [file, JStr data, JObj options] JUndefined None s
         else promisify env FsWriteFile [file, JStr data, JObj options] JUndefined None s)"

definition del :: "'s platform \<Rightarrow> string \<Rightarrow> 's \<Rightarrow> unit promise \<times> 's" where
  "del env path s =
     (let (err, s') = rimraf env path s
      in (new_Promise (\<lambda>p. case err of None \<Rightarrow> resolve () p | Some e \<Rightarrow> reject e p), s'))"

definition exists :: "'s platform \<Rightarrow> string \<Rightarrow> 's \<Rightarrow> bool promise" where
  "exists env path s =
     new_Promise (\<lambda>p.
       case fs_lstat env path s of
         Inr st \<Rightarrow> resolve True p
       | Inl err \<Rightarrow> if code err = Some ''ENOENT'' then resolve False p else reject err p)"

text \<open>
  \<open>mkdirp\<close> reports to its callback \<open>done\<close>; the model returns what \<open>done\<close> receives
  (the error, or none) and the state then. Nothing bounds the retries, so a run that
  never reaches \<open>done\<close> is the value \<open>None\<close>.
\<close>

partial_function (option) mkdirp ::
  "'s platform \<Rightarrow> string \<Rightarrow> jsval \<Rightarrow> 's \<Rightarrow> (error option \<times> 's) option" where
  "mkdirp env path0 mode0 s =
     (let mode = (if mode0 = JUndefined then JNum 511 else mode0);
          path = path_resolve env path0
      in case fs_mkdir env path mode s of
           (None, s1) \<Rightarrow> Some (None, s1)
         | (Some err, s1) \<Rightarrow>
             if code err = Some ''ENOENT'' then
               Option.bind (mkdirp env (path_dirname env path) mode s1)
                 (\<lambda>(err', s2).
                    case err' of
                      None \<Rightarrow> mkdirp env path mode s2
                    | Some e \<Rightarrow> Some (Some e, s2))
             else
               Some (case fs_stat env path s1 of
                       Inl e \<Rightarrow> Some e
                     | Inr st \<Rightarrow>
                         if \<not> isDirectory st
                         then Some (PlainError (path @ '' is already a file''))
                         else None, s1))"

declare mkdirp.simps [code]

definition createDirectory ::
  "'s platform \<Rightarrow> string \<Rightarrow> jsval \<Rightarrow> 's \<Rightarrow> (unit promise \<times> 's) option" where
  "createDirectory env path mode0 s =
     (let mode = (if mode0 = JUndefined then JNum 511 else mode0)
      in case mkdirp env path mode s of
           None \<Rightarrow> None
         | Some (err, s') \<Rightarrow>
             Some (new_Promise (\<lambda>p. case err of None \<Rightarrow> resolve () p | Some e \<Rightarrow> reject e p), s'))"

section \<open>A platform with a file tree\<close>

text \<open>
  A model of the platform on a POSIX system, for the claims that speak of what exists in
  the file system. The tree maps the absolute path of an entry, as its list of segments,
  to a directory, a regular file or a symbolic link with its target (an absolute path).
  The root is a directory. A file system mounted read-only refuses every change.
  Permission bits, file contents and descriptors are not part of the tree. Error codes
  are those of Linux (\<open>mkdir\<close> on an existing entry is \<open>EEXIST\<close> also when the file
  system is read-only; \<open>unlink\<close> on a directory is \<open>EISDIR\<close>).
\<close>

datatype node = Dir | File | Link "string list"

record fsys =
  entries :: "(string list \<times> node) list"
  readonly :: bool

definition entry :: "fsys \<Rightarrow> string list \<Rightarrow> node option" where
  "entry fs k = (if k = [] then Some Dir else map_of (entries fs) k)"

definition stats_of :: "node \<Rightarrow> stats" where
  "stats_of n =
     \<lparr> isDirectory = (n = Dir), isFile = (n = File),
       isSymbolicLink = (case n of Link t \<Rightarrow> True | _ \<Rightarrow> False) \<rparr>"

subsection \<open>Paths as strings\<close>

text \<open>
  The segments of a path are the non-empty pieces between slashes. \<open>path.resolve\<close>
  makes a path absolute from the working directory and removes \<open>.\<close> and \<open>..\<close>;
  \<open>path.dirname\<close> drops the last segment (Node's own \<open>dirname\<close> spells some
  results with other separators, such as \<open>//\<close>, that name the same entry).
\<close>

function split_path :: "string \<Rightarrow> string list" where
  "split_path [] = []"
| "split_path (c # cs) =
     (if c = CHR ''/'' then split_path cs
      else (c # takeWhile (\<lambda>x. x \<noteq> CHR ''/'') cs)
           # split_path (dropWhile (\<lambda>x. x \<noteq> CHR ''/'') cs))"
  by pat_completeness auto
termination
  by (relation "measure length") (auto simp: length_dropWhile_le less_Suc_eq_le)

fun normalize :: "string list \<Rightarrow> string list \<Rightarrow> string list" where
  "normalize acc [] = acc"
| "normalize acc (c # cs) =
     (if c = ''.'' then normalize acc cs
      else if c = ''..'' then normalize (butlast acc) cs
      else normalize (acc @ [c]) cs)"

definition join_path :: "string list \<Rightarrow> string" where
  "join_path segs = (if segs = [] then ''/'' else concat (map (\<lambda>c. CHR ''/'' # c) segs))"

definition is_absolute :: "string \<Rightarrow> bool" where
  "is_absolute p = (case p of [] \<Rightarrow> False | c # cs \<Rightarrow> c = CHR ''/'')"

definition parse_path :: "string \<Rightarrow> string \<Rightarrow> string list" where
  "parse_path cwd p =
     normalize [] (if is_absolute p then split_path p else split_path cwd @ split_path p)"

definition posix_resolve :: "string \<Rightarrow> string \<Rightarrow> string" where
  "posix_resolve cwd p = join_path (parse_path cwd p)"

definition posix_dirname :: "string \<Rightarrow> string" where
  "posix_dirname p =
     (if is_absolute p then join_path (butlast (split_path p))
      else (case butlast (split_path p) of
              [] \<Rightarrow> ''.''
            | c # cs \<Rightarrow> tl (join_path (c # cs))))"

subsection \<open>Path resolution\<close>

text \<open>
  \<open>namei\<close> walks the segments from a directory \<open>cur\<close>. A symbolic link met on the
  way is followed from the root, at most \<open>fuel\<close> times (\<open>ELOOP\<close> after that); the
  last segment's link is followed only when \<open>follow\<close> is set (\<open>stat\<close>, not
  \<open>lstat\<close>). The result is the key of the entry found.
\<close>

fun namei ::
  "nat \<Rightarrow> fsys \<Rightarrow> bool \<Rightarrow> string list \<Rightarrow> string list \<Rightarrow> string + string list" where
  "namei fuel fs follow cur [] =
     (case entry fs cur of None \<Rightarrow> Inl ''ENOENT'' | Some n \<Rightarrow> Inr cur)"
| "namei fuel fs follow cur (c # rest) =
     (case entry fs cur of
        None \<Rightarrow> Inl ''ENOENT''
      | Some Dir \<Rightarrow>
          (case entry fs (cur @ [c]) of
             Some (Link t) \<Rightarrow>
               if rest = [] \<and> \<not> follow then Inr (cur @ [c])
               else (case fuel of
                       0 \<Rightarrow> Inl ''ELOOP''
                     | Suc f \<Rightarrow> namei f fs follow [] (t @ rest))
           | _ \<Rightarrow> namei fuel fs follow (cur @ [c]) rest)
      | Some _ \<Rightarrow> Inl ''ENOTDIR'')"

definition lookup_path ::
  "string \<Rightarrow> bool \<Rightarrow> string \<Rightarrow> fsys \<Rightarrow> string + (string list \<times> node)" where
  "lookup_path cwd follow p fs =
     (if p = [] then Inl ''ENOENT''
      else case namei 40 fs follow [] (parse_path cwd p) of
             Inl c \<Rightarrow> Inl c
           | Inr k \<Rightarrow> (case entry fs k of None \<Rightarrow> Inl ''ENOENT'' | Some n \<Rightarrow> Inr (k, n)))"

text \<open>
  The directory that holds the last segment, for the calls that create or remove an
  entry: the key of the entry itself (which may be absent), or the error of the walk.
\<close>

definition lookup_parent :: "string \<Rightarrow> string \<Rightarrow> fsys \<Rightarrow> string + string list" where
  "lookup_parent cwd p fs =
     (let segs = parse_path cwd p in
      if p = [] then Inl ''ENOENT''
      else if segs = [] then Inr []
      else case namei 40 fs True [] (butlast segs) of
             Inl c \<Rightarrow> Inl c
           | Inr d \<Rightarrow>
               (case entry fs d of
                  None \<Rightarrow> Inl ''ENOENT''
                | Some Dir \<Rightarrow> Inr (d @ [last segs])
                | Some n \<Rightarrow> Inl ''ENOTDIR''))"

subsection \<open>The primitives on the tree\<close>

definition posix_stat :: "string \<Rightarrow> string \<Rightarrow> fsys \<Rightarrow> error + stats" where
  "posix_stat cwd p fs =
     (case lookup_path cwd True p fs of
        Inl c \<Rightarrow> Inl (SysError c ''stat'' p)
      | Inr (k, n) \<Rightarrow> Inr (stats_of n))"

definition posix_lstat :: "string \<Rightarrow> string \<Rightarrow> fsys \<Rightarrow> error + stats" where
  "posix_lstat cwd p fs =
     (case lookup_path cwd False p fs of
        Inl c \<Rightarrow> Inl (SysError c ''lstat'' p)
      | Inr (k, n) \<Rightarrow> Inr (stats_of n))"

definition wants_write :: "jsval \<Rightarrow> bool" where
  "wants_write mode = (case mode of JNum m \<Rightarrow> (m div 2) mod 2 = 1 | _ \<Rightarrow> False)"

definition posix_access :: "string \<Rightarrow> string \<Rightarrow> jsval \<Rightarrow> fsys \<Rightarrow> error option" where
  "posix_access cwd p mode fs =
     (case lookup_path cwd True p fs of
        Inl c \<Rightarrow> Some (SysError c ''access'' p)
      | Inr (k, n) \<Rightarrow>
          if readonly fs \<and> wants_write mode then Some (SysError ''EROFS'' ''access'' p)
          else None)"

definition posix_mkdir :: "string \<Rightarrow> string \<Rightarrow> jsval \<Rightarrow> fsys \<Rightarrow> error option \<times> fsys" where
  "posix_mkdir cwd p mode fs =
     (case lookup_parent cwd p fs of
        Inl c \<Rightarrow> (Some (SysError c ''mkdir'' p), fs)
      | Inr k \<Rightarrow>
          (case entry fs k of
             Some n \<Rightarrow> (Some (SysError ''EEXIST'' ''mkdir'' p), fs)
           | None \<Rightarrow>
               if readonly fs then (Some (SysError ''EROFS'' ''mkdir'' p), fs)
               else (None, fs\<lparr>entries := (k, Dir) # entries fs\<rparr>)))"

definition posix_unlink :: "string \<Rightarrow> string \<Rightarrow> fsys \<Rightarrow> error option \<times> fsys" where
  "posix_unlink cwd p fs =
     (case lookup_parent cwd p fs of
        Inl c \<Rightarrow> (Some (SysError c ''unlink'' p), fs)
      | Inr k \<Rightarrow>
          (case entry fs k of
             None \<Rightarrow> (Some (SysError ''ENOENT'' ''unlink'' p), fs)
           | Some Dir \<Rightarrow> (Some (SysError ''EISDIR'' ''unlink'' p), fs)
           | Some n \<Rightarrow>
               if readonly fs then (Some (SysError ''EROFS'' ''unlink'' p), fs)
               else (None, fs\<lparr>entries := filter (\<lambda>(q, m). q \<noteq> k) (entries fs)\<rparr>)))"

text \<open>
  rimraf removes the entry and, below a directory, every entry whose path starts with
  the directory's; a path that names nothing is a success. The root itself cannot be
  removed.
\<close>

definition posix_rimraf :: "string \<Rightarrow> string \<Rightarrow> fsys \<Rightarrow> error option \<times> fsys" where
  "posix_rimraf cwd p fs =
     (case lookup_parent cwd p fs of
        Inl c \<Rightarrow> (if c = ''ENOENT'' then None else Some (SysError c ''lstat'' p), fs)
      | Inr k \<Rightarrow>
          (case entry fs k of
             None \<Rightarrow> (None, fs)
           | Some n \<Rightarrow>
               if readonly fs then (Some (SysError ''EROFS'' ''unlink'' p), fs)
               else if n = Dir then
                 (if k = [] then Some (SysError ''EBUSY'' ''rmdir'' p) else None,
                  fs\<lparr>entries := filter (\<lambda>(q, m). \<not> prefix k q) (entries fs)\<rparr>)
               else (None, fs\<lparr>entries := filter (\<lambda>(q, m). q \<noteq> k) (entries fs)\<rparr>)))"

text \<open>
  The platform of a process with working directory \<open>cwd\<close>. The pass-through
  primitives need contents and descriptors, which the tree does not have, and report
  \<open>ENOSYS\<close>.
\<close>

definition posix :: "string \<Rightarrow> fsys platform" where
  "posix cwd =
     \<lparr> fs_access = posix_access cwd,
       fs_lstat = posix_lstat cwd,
       fs_stat = posix_stat cwd,
       fs_mkdir = posix_mkdir cwd,
       fs_unlink = posix_unlink cwd,
       rimraf = posix_rimraf cwd,
       fs_other = (\<lambda>t args s. (Inl (SysError ''ENOSYS'' ''other'' []), s)),
       path_resolve = posix_resolve cwd,
       path_dirname = posix_dirname \<rparr>"

text \<open>
  Segment lists as \<open>split_path\<close> produces them (no empty segment, no slash inside
  one), and as \<open>path.resolve\<close> leaves them (no \<open>.\<close> or \<open>..\<close> either).
\<close>

definition clean :: "string list \<Rightarrow> bool" where
  "clean segs = (\<forall>c\<in>set segs. c \<noteq> [] \<and> CHR ''/'' \<notin> set c)"

definition plain :: "string list \<Rightarrow> bool" where
  "plain segs = (clean segs \<and> ''.'' \<notin> set segs \<and> ''..'' \<notin> set segs)"

section \<open>A platform that records the calls it receives\<close>

text \<open>
  Every primitive succeeds; the pass-through primitives append their name and arguments
  to the state, which is the list of the calls made so far.
\<close>

definition recorder :: "(prim \<times> jsval list) list platform" where
  "recorder =
     \<lparr> fs_access = (\<lambda>p m s. None),
       fs_lstat = (\<lambda>p s. Inr \<lparr>isDirectory = False, isFile = True, isSymbolicLink = False\<rparr>),
       fs_stat = (\<lambda>p s. Inr \<lparr>isDirectory = False, isFile = True, isSymbolicLink = False\<rparr>),
       fs_mkdir = (\<lambda>p m s. (None, s)),
       fs_unlink = (\<lambda>p s. (None, s)),
       rimraf = (\<lambda>p s. (None, s)),
       fs_other = (\<lambda>t args s. (Inr (JNum 0), s @ [(t, args)])),
       path_resolve = (\<lambda>p. p),
       path_dirname = (\<lambda>p. p) \<rparr>"

section \<open>What recursive directory creation needs of a platform\<close>

text \<open>
  Three laws of \<open>mkdir\<close>, \<open>stat\<close> and \<open>path.resolve\<close>: a directory just
  created is reported as a directory; \<open>mkdir\<close> on a path whose metadata query succeeds
  fails with a code other than \<open>'ENOENT'\<close> and changes nothing; resolving a resolved
  path gives it back.
\<close>

definition mkdir_stat_laws :: "'s platform \<Rightarrow> bool" where
  "mkdir_stat_laws env =
     ((\<forall>p m s s'. fs_mkdir env p m s = (None, s')
          \<longrightarrow> (\<exists>st. fs_stat env p s' = Inr st \<and> isDirectory st))
    \<and> (\<forall>p m s st. fs_stat env p s = Inr st
          \<longrightarrow> (\<exists>e. fs_mkdir env p m s = (Some e, s) \<and> code e \<noteq> Some ''ENOENT''))
    \<and> (\<forall>p. path_resolve env (path_resolve env p) = path_resolve env p))"

section \<open>What the directory claims say of a tree\<close>

text \<open>
  A path can be created in a tree when the file system is writable and every prefix of
  its segments is absent or a directory. \<open>all_directories\<close>: every prefix is a
  directory. \<open>file_above fs q segs\<close>: the proper prefix \<open>q\<close> of the path is a regular
  file, below directories only.
\<close>

definition creatable :: "fsys \<Rightarrow> string list \<Rightarrow> bool" where
  "creatable fs segs =
     (\<not> readonly fs
      \<and> list_all (\<lambda>q. entry fs q = None \<or> entry fs q = Some Dir) (prefixes segs))"

definition all_directories :: "fsys \<Rightarrow> string list \<Rightarrow> bool" where
  "all_directories fs segs = list_all (\<lambda>q. entry fs q = Some Dir) (prefixes segs)"

definition file_above :: "fsys \<Rightarrow> string list \<Rightarrow> string list \<Rightarrow> bool" where
  "file_above fs q segs =
     (strict_prefix q segs \<and> entry fs q = Some File
      \<and> list_all (\<lambda>r. r = q \<or> entry fs r = Some Dir) (prefixes q))"

section \<open>The wrappers settle their promises\<close>

lemma promisify_settles:
  "promisify env target args context resolver s =
     (case apply_target env target args s of
        (Inl err, s') \<Rightarrow> (Rejected err, s')
      | (Inr result, s') \<Rightarrow>
          (Resolved (case resolver of
                       None \<Rightarrow> result
                     | Some r \<Rightarrow> r [JFunc ''target'', JArr args, context, JFunc ''resolver'']), s'))"
  by (simp add: promisify_def new_Promise_def resolve_def reject_def
      split: prod.splits sum.splits option.splits)

lemma thunk_without_resolver:
  "thunk env target args context None s =
     (case apply_target env target args s of
        (Inl err, s') \<Rightarrow> (Rejected err, s')
      | (Inr result, s') \<Rightarrow> (Resolved result, s'))"
  by (simp add: thunk_def new_Promise_def resolve_def reject_def
      split: prod.splits sum.splits)

lemma thunk_with_resolver:
  "thunk env target args context (Some r) s =
     (case apply_target env target args s of
        (Inl err, s') \<Rightarrow> (Rejected err, s')
      | (Inr result, s') \<Rightarrow> (Pending, s'))"
  by (simp add: thunk_def new_Promise_def reject_def split: prod.splits sum.splits)

lemma apply_target_recorder_other:
  "target \<noteq> FsStat \<Longrightarrow> target \<noteq> FsUnlink \<Longrightarrow>
   apply_target recorder target args s = (Inr (JNum 0), s @ [(target, args)])"
  by (cases target) (simp_all add: apply_target_def recorder_def)

text \<open>
  C9 (promises of wrapped calls are settled; read and write resolve with the record the
  resolver builds). The wrappers of the second API do so (\<open>promisify_settles\<close>). In
  the first API a read or write whose primitive succeeds leaves its promise pending for
  ever: here \<open>read(3, buffer, 0, 2, 0)\<close> and \<open>write(3, buffer, 0, 2)\<close> on the
  recording platform, beside the same calls through \<open>promisify\<close>.
\<close>

theorem legacy_read_never_settles:
  "legacy_read recorder 3 [0, 0] 0 2 0 [] =
     (Pending, [(FsRead, [JNum 3, JBuf [0, 0], JNum 0, JNum 2, JNum 0])])
   \<and> \<not> settled (fst (legacy_read recorder 3 [0, 0] 0 2 0 []))
   \<and> legacy_write recorder 3 [0, 0] 0 2 Undefined [] =
     (Pending, [(FsWrite, [JNum 3, JBuf [0, 0], JNum 0, JNum 2])])
   \<and> \<not> settled (fst (legacy_write recorder 3 [0, 0] 0 2 Undefined []))
   \<and> read recorder 3 [0, 0] 0 2 0 [] =
     (Resolved (JObj [(''bytesRead'', JArr [JNum 3, JBuf [0, 0], JNum 0, JNum 2, JNum 0]),
                      (''buffer'', JNull)]),
      [(FsRead, [JNum 3, JBuf [0, 0], JNum 0, JNum 2, JNum 0])])
   \<and> write' recorder [JNum 3, JBuf [0, 0], JNum 0, JNum 2] [] =
     (Resolved (JObj [(''written'', JArr [JNum 3, JBuf [0, 0], JNum 0, JNum 2]),
                      (''buffer'', JNull)]),
      [(FsWrite, [JNum 3, JBuf [0, 0], JNum 0, JNum 2])])"
  by (simp add: legacy_read_def legacy_write_def read_def write'_def thunk_with_resolver
      promisify_settles apply_target_recorder_other settled_def arg_def)

section \<open>The existence check\<close>

lemma apply_target_FsStat:
  "apply_target env FsStat [JStr p] s =
     (case fs_stat env p s of Inl e \<Rightarrow> (Inl e, s) | Inr st \<Rightarrow> (Inr (JStats st), s))"
  by (simp add: apply_target_def)

lemma legacy_exists_eq:
  "legacy_exists env path s =
     (case fs_stat env path s of
        Inr st \<Rightarrow> (Resolved True, s)
      | Inl err \<Rightarrow> (if code err = Some ''ENOENT'' then Resolved False else Rejected err, s))"
  by (simp add: legacy_exists_def legacy_stat_def thunk_without_resolver apply_target_FsStat
      split: sum.splits)

lemma exists_eq:
  "exists env path s =
     (case fs_lstat env path s of
        Inr st \<Rightarrow> Resolved True
      | Inl err \<Rightarrow> if code err = Some ''ENOENT'' then Resolved False else Rejected err)"
  by (simp add: exists_def new_Promise_def resolve_def reject_def split: sum.splits)

text \<open>
  C4 (the existence check): both versions of \<open>exists\<close> answer \<open>true\<close> when their
  metadata query succeeds, \<open>false\<close> when it fails with the code \<open>'ENOENT'\<close>, and
  reject with the query's own error for every other failure. The second API queries
  \<open>lstat\<close>, the first \<open>stat\<close>.
\<close>

theorem exists_three_cases:
  "exists env path s =
     (case fs_lstat env path s of
        Inr st \<Rightarrow> Resolved True
      | Inl err \<Rightarrow> if code err = Some ''ENOENT'' then Resolved False else Rejected err)
   \<and> legacy_exists env path s =
     (case fs_stat env path s of
        Inr st \<Rightarrow> (Resolved True, s)
      | Inl err \<Rightarrow> (if code err = Some ''ENOENT'' then Resolved False else Rejected err, s))"
  by (simp only: exists_eq legacy_exists_eq simp_thms)

section \<open>The permission check\<close>

text \<open>
  C10 (the second API's \<open>access\<close> never rejects): it resolves with \<open>true\<close> when the
  check reports no error and with \<open>false\<close> for every error, whatever its code.
\<close>

theorem access_never_rejects:
  "access env path mode s = Resolved (fs_access env path mode s = None)"
  by (simp add: access_def new_Promise_def resolve_def split: option.splits)

section \<open>Writing a text file\<close>

lemma first_is_a_JStr: "first_is_a (JStr f) = (\<exists>rest. f = CHR ''a'' # rest)"
  by (cases f) (simp_all add: first_is_a_def)

lemma openFlags_table:
  "map openFlags
     [OpenFlags_read, OpenFlags_readWrite, OpenFlags_readSync, OpenFlags_readWriteSync,
      OpenFlags_write, OpenFlags_writeNoOverwrite, OpenFlags_create,
      OpenFlags_createNoOverwrite, OpenFlags_append, OpenFlags_appendNoOverwrite,
      OpenFlags_appendRead, OpenFlags_appendReadNoOverwrite]
   = [''r'', ''r+'', ''rs'', ''rs+'', ''w'', ''wx'', ''w+'', ''wx+'', ''a'', ''ax'', ''a+'', ''ax+'']"
  by simp

lemma property_createOptions_flags:
  "property (createOptions encoding flags mode) ''flags'' =
     JStr (case flags of Inl n \<Rightarrow> openFlags n | Inr str \<Rightarrow> str)"
  by (simp add: property_def createOptions_def Let_def
      split: optional.splits sum.splits list.splits)

lemma property_createOptions_encoding:
  "property (createOptions encoding flags mode) ''encoding'' =
     JStr (case encoding of
             Given (Inl n) \<Rightarrow> Encoding_name n
           | Given (Inr str) \<Rightarrow> str
           | _ \<Rightarrow> ''utf8'')"
  by (simp add: property_def createOptions_def Let_def
      split: optional.splits sum.splits list.splits)

lemma writeTextFile_eq:
  "writeTextFile env file data encoding flags mode s =
     promisify env
       (if \<exists>rest. (case flags of Given f \<Rightarrow> f | _ \<Rightarrow> ''w'') = CHR ''a'' # rest
        then FsAppendFile else FsWriteFile)
       [file, JStr data,
        JObj [(''encoding'', (case encoding of Undefined \<Rightarrow> JStr ''utf8'' | Null \<Rightarrow> JNull
                               | Given e \<Rightarrow> JStr e)),
              (''flags'', JStr (case flags of Given f \<Rightarrow> f | _ \<Rightarrow> ''w'')),
              (''mode'', mode)]]
       JUndefined None s"
  by (simp add: writeTextFile_def opt_jsval_def first_is_a_JStr split: optional.splits)

lemma legacy_writeTextFile_eq:
  "legacy_writeTextFile env file data lencoding lflags lmode s =
     thunk env
       (if \<exists>rest. (case lflags of Given (Inl n) \<Rightarrow> openFlags n | Given (Inr f) \<Rightarrow> f
                     | _ \<Rightarrow> ''w'') = CHR ''a'' # rest
        then FsAppendFile else FsWriteFile)
       [file, JStr data,
        JObj (createOptions lencoding
                (case lflags of Given f \<Rightarrow> f | _ \<Rightarrow> Inl OpenFlags_write) lmode)]
       JUndefined None s"
proof -
  have f: "property (createOptions lencoding
                (case lflags of Given f \<Rightarrow> f | _ \<Rightarrow> Inl OpenFlags_write) lmode) ''flags''
       = JStr (case lflags of Given (Inl n) \<Rightarrow> openFlags n | Given (Inr f) \<Rightarrow> f | _ \<Rightarrow> ''w'')"
    by (simp add: property_createOptions_flags split: optional.splits sum.splits)
  show ?thesis
    by (simp add: legacy_writeTextFile_def Let_def f first_is_a_JStr)
qed

lemma legacy_append_flags:
  "(\<exists>rest. (case lflags of Given (Inl n) \<Rightarrow> openFlags n | Given (Inr f) \<Rightarrow> f | _ \<Rightarrow> ''w'')
            = CHR ''a'' # rest)
   = (lflags \<in> {Given (Inl OpenFlags_append), Given (Inl OpenFlags_appendNoOverwrite),
                 Given (Inl OpenFlags_appendRead), Given (Inl OpenFlags_appendReadNoOverwrite)}
      \<or> (\<exists>rest. lflags = Given (Inr (CHR ''a'' # rest))))"
proof (cases lflags)
  case Undefined
  then show ?thesis by simp
next
  case Null
  then show ?thesis by simp
next
  case (Given x)
  show ?thesis
  proof (cases x)
    case (Inl n)
    then show ?thesis using Given by (cases n) simp_all
  next
    case (Inr f)
    then show ?thesis using Given by simp
  qed
qed

text \<open>
  C8 (the dispatch of \<open>writeTextFile\<close>). In both APIs the one primitive called is
  \<open>fs.appendFile\<close> exactly when the flag string in effect starts with the character
  \<open>a\<close>, and \<open>fs.writeFile\<close> otherwise, with the same file, data and options. Flags
  left out are \<open>'w'\<close> (\<open>OpenFlags.write\<close> in the first API); an encoding left out is
  \<open>'utf8'\<close>. In the first API the flag string of a number of the enum is the one the
  table \<open>openFlags\<close> gives, so the append modes are \<open>append\<close>, \<open>appendNoOverwrite\<close>,
  \<open>appendRead\<close> and \<open>appendReadNoOverwrite\<close>. The calls are read off the recording
  platform; the equations with \<open>promisify\<close> and \<open>thunk\<close> hold on every platform.
\<close>

theorem writeTextFile_dispatch:
  "writeTextFile env file data encoding flags mode s =
     promisify env
       (if \<exists>rest. (case flags of Given f \<Rightarrow> f | _ \<Rightarrow> ''w'') = CHR ''a'' # rest
        then FsAppendFile else FsWriteFile)
       [file, JStr data,
        JObj [(''encoding'', (case encoding of Undefined \<Rightarrow> JStr ''utf8'' | Null \<Rightarrow> JNull
                               | Given e \<Rightarrow> JStr e)),
              (''flags'', JStr (case flags of Given f \<Rightarrow> f | _ \<Rightarrow> ''w'')),
              (''mode'', mode)]]
       JUndefined None s
   \<and> snd (writeTextFile recorder file data encoding flags mode []) =
       [(if \<exists>rest. (case flags of Given f \<Rightarrow> f | _ \<Rightarrow> ''w'') = CHR ''a'' # rest
         then FsAppendFile else FsWriteFile,
         [file, JStr data,
          JObj [(''encoding'', (case encoding of Undefined \<Rightarrow> JStr ''utf8'' | Null \<Rightarrow> JNull
                                 | Given e \<Rightarrow> JStr e)),
                (''flags'', JStr (case flags of Given f \<Rightarrow> f | _ \<Rightarrow> ''w'')),
                (''mode'', mode)]])]
   \<and> (map fst (snd (writeTextFile recorder file data encoding flags mode [])) = [FsAppendFile])
       = (\<exists>rest. flags = Given (CHR ''a'' # rest))
   \<and> (map fst (snd (writeTextFile recorder file data encoding flags mode [])) = [FsWriteFile])
       = (\<not> (\<exists>rest. flags = Given (CHR ''a'' # rest)))
   \<and> map openFlags
         [OpenFlags_read, OpenFlags_readWrite, OpenFlags_readSync, OpenFlags_readWriteSync,
          OpenFlags_write, OpenFlags_writeNoOverwrite, OpenFlags_create,
          OpenFlags_createNoOverwrite, OpenFlags_append, OpenFlags_appendNoOverwrite,
          OpenFlags_appendRead, OpenFlags_appendReadNoOverwrite]
       = [''r'', ''r+'', ''rs'', ''rs+'', ''w'', ''wx'', ''w+'', ''wx+'',
          ''a'', ''ax'', ''a+'', ''ax+'']
   \<and> legacy_writeTextFile env file data lencoding lflags lmode s =
     thunk env
       (if \<exists>rest. (case lflags of Given (Inl n) \<Rightarrow> openFlags n | Given (Inr f) \<Rightarrow> f
                     | _ \<Rightarrow> ''w'') = CHR ''a'' # rest
        then FsAppendFile else FsWriteFile)
       [file, JStr data,
        JObj (createOptions lencoding
                (case lflags of Given f \<Rightarrow> f | _ \<Rightarrow> Inl OpenFlags_write) lmode)]
       JUndefined None s
   \<and> property (createOptions lencoding
                (case lflags of Given f \<Rightarrow> f | _ \<Rightarrow> Inl OpenFlags_write) lmode) ''flags''
       = JStr (case lflags of Given (Inl n) \<Rightarrow> openFlags n | Given (Inr f) \<Rightarrow> f | _ \<Rightarrow> ''w'')
   \<and> property (createOptions lencoding
                (case lflags of Given f \<Rightarrow> f | _ \<Rightarrow> Inl OpenFlags_write) lmode) ''encoding''
       = JStr (case lencoding of Given (Inl n) \<Rightarrow> Encoding_name n | Given (Inr e) \<Rightarrow> e
               | _ \<Rightarrow> ''utf8'')
   \<and> (map fst (snd (legacy_writeTextFile recorder file data lencoding lflags lmode []))
        = [FsAppendFile])
       = (lflags \<in> {Given (Inl OpenFlags_append), Given (Inl OpenFlags_appendNoOverwrite),
                     Given (Inl OpenFlags_appendRead),
                     Given (Inl OpenFlags_appendReadNoOverwrite)}
          \<or> (\<exists>rest. lflags = Given (Inr (CHR ''a'' # rest))))
   \<and> (map fst (snd (legacy_writeTextFile recorder file data lencoding lflags lmode []))
        = [FsWriteFile])
       = (\<not> (lflags \<in> {Given (Inl OpenFlags_append), Given (Inl OpenFlags_appendNoOverwrite),
                        Given (Inl OpenFlags_appendRead),
                        Given (Inl OpenFlags_appendReadNoOverwrite)}
             \<or> (\<exists>rest. lflags = Given (Inr (CHR ''a'' # rest)))))"
proof -
  have new_flag: "(\<exists>rest. (case flags of Given f \<Rightarrow> f | _ \<Rightarrow> ''w'') = CHR ''a'' # rest)
      = (\<exists>rest. flags = Given (CHR ''a'' # rest))"
    by (cases flags) simp_all
  have rec_new: "snd (writeTextFile recorder file data encoding flags mode []) =
       [(if \<exists>rest. (case flags of Given f \<Rightarrow> f | _ \<Rightarrow> ''w'') = CHR ''a'' # rest
         then FsAppendFile else FsWriteFile,
         [file, JStr data,
          JObj [(''encoding'', (case encoding of Undefined \<Rightarrow> JStr ''utf8'' | Null \<Rightarrow> JNull
                                 | Given e \<Rightarrow> JStr e)),
                (''flags'', JStr (case flags of Given f \<Rightarrow> f | _ \<Rightarrow> ''w'')),
                (''mode'', mode)]])]"
    by (simp add: writeTextFile_eq promisify_settles apply_target_recorder_other)
  have rec_new_a: "(map fst (snd (writeTextFile recorder file data encoding flags mode []))
        = [FsAppendFile]) = (\<exists>rest. flags = Given (CHR ''a'' # rest))"
    unfolding rec_new new_flag [symmetric] by simp
  have rec_new_w: "(map fst (snd (writeTextFile recorder file data encoding flags mode []))
        = [FsWriteFile]) = (\<not> (\<exists>rest. flags = Given (CHR ''a'' # rest)))"
    unfolding rec_new new_flag [symmetric] by simp
  have old_flags: "property (createOptions lencoding
                (case lflags of Given f \<Rightarrow> f | _ \<Rightarrow> Inl OpenFlags_write) lmode) ''flags''
       = JStr (case lflags of Given (Inl n) \<Rightarrow> openFlags n | Given (Inr f) \<Rightarrow> f | _ \<Rightarrow> ''w'')"
    by (simp add: property_createOptions_flags split: optional.splits sum.splits)
  have old_enc: "property (createOptions lencoding
                (case lflags of Given f \<Rightarrow> f | _ \<Rightarrow> Inl OpenFlags_write) lmode) ''encoding''
       = JStr (case lencoding of Given (Inl n) \<Rightarrow> Encoding_name n | Given (Inr e) \<Rightarrow> e
               | _ \<Rightarrow> ''utf8'')"
    by (simp add: property_createOptions_encoding)
  have rec_old: "map fst (snd (legacy_writeTextFile recorder file data lencoding lflags lmode []))
        = [if \<exists>rest. (case lflags of Given (Inl n) \<Rightarrow> openFlags n | Given (Inr f) \<Rightarrow> f
                     | _ \<Rightarrow> ''w'') = CHR ''a'' # rest
           then FsAppendFile else FsWriteFile]"
    by (simp add: legacy_writeTextFile_eq thunk_without_resolver apply_target_recorder_other)
  have rec_old_a: "(map fst (snd (legacy_writeTextFile recorder file data lencoding lflags lmode []))
        = [FsAppendFile])
       = (lflags \<in> {Given (Inl OpenFlags_append), Given (Inl OpenFlags_appendNoOverwrite),
                     Given (Inl OpenFlags_appendRead),
                     Given (Inl OpenFlags_appendReadNoOverwrite)}
          \<or> (\<exists>rest. lflags = Given (Inr (CHR ''a'' # rest))))"
    unfolding rec_old legacy_append_flags [symmetric] by simp
  have rec_old_w: "(map fst (snd (legacy_writeTextFile recorder file data lencoding lflags lmode []))
        = [FsWriteFile])
       = (\<not> (lflags \<in> {Given (Inl OpenFlags_append), Given (Inl OpenFlags_appendNoOverwrite),
                        Given (Inl OpenFlags_appendRead),
                        Given (Inl OpenFlags_appendReadNoOverwrite)}
             \<or> (\<exists>rest. lflags = Given (Inr (CHR ''a'' # rest)))))"
    unfolding rec_old legacy_append_flags [symmetric] by simp
  show ?thesis
    using writeTextFile_eq rec_new rec_new_a rec_new_w openFlags_table legacy_writeTextFile_eq
      old_flags old_enc rec_old_a rec_old_w
    by (intro conjI)
qed

text \<open>
  The calls of the two example programs (\<open>writeTextFile('data.log', text, undefined, 'a')\<close>
  and, in the first API, \<open>writeTextFile('data.log', text, null, OpenFlags.append)\<close>),
  a call with the flags \<open>'ax+'\<close>, and calls with the flags left out or \<open>'w+'\<close>.
\<close>

theorem writeTextFile_dispatch_witness:
  "snd (writeTextFile recorder (JStr ''data.log'') ''PASSED!'' Undefined (Given ''a'')
          JUndefined [])
     = [(FsAppendFile, [JStr ''data.log'', JStr ''PASSED!'',
          JObj [(''encoding'', JStr ''utf8''), (''flags'', JStr ''a''), (''mode'', JUndefined)]])]
   \<and> snd (writeTextFile recorder (JStr ''data.log'') ''PASSED!'' (Given ''ascii'')
          (Given ''ax+'') (JNum 420) [])
     = [(FsAppendFile, [JStr ''data.log'', JStr ''PASSED!'',
          JObj [(''encoding'', JStr ''ascii''), (''flags'', JStr ''ax+''), (''mode'', JNum 420)]])]
   \<and> snd (writeTextFile recorder (JStr ''data.log'') ''PASSED!'' Undefined Undefined
          JUndefined [])
     = [(FsWriteFile, [JStr ''data.log'', JStr ''PASSED!'',
          JObj [(''encoding'', JStr ''utf8''), (''flags'', JStr ''w''), (''mode'', JUndefined)]])]
   \<and> snd (writeTextFile recorder (JStr ''data.log'') ''PASSED!'' Undefined (Given ''w+'')
          JUndefined [])
     = [(FsWriteFile, [JStr ''data.log'', JStr ''PASSED!'',
          JObj [(''encoding'', JStr ''utf8''), (''flags'', JStr ''w+''), (''mode'', JUndefined)]])]
   \<and> map fst (snd (legacy_writeTextFile recorder (JStr ''data.log'') ''PASSED!'' Null
          (Given (Inl OpenFlags_append)) Undefined [])) = [FsAppendFile]
   \<and> map fst (snd (legacy_writeTextFile recorder (JStr ''data.log'') ''PASSED!'' Null
          (Given (Inr ''a+'')) Undefined [])) = [FsAppendFile]
   \<and> map fst (snd (legacy_writeTextFile recorder (JStr ''data.log'') ''PASSED!'' Null
          Undefined Undefined [])) = [FsWriteFile]
   \<and> map fst (snd (legacy_writeTextFile recorder (JStr ''data.log'') ''PASSED!'' Null
          (Given (Inl OpenFlags_create)) Undefined [])) = [FsWriteFile]
   \<and> snd (legacy_writeTextFile recorder (JStr ''data.log'') ''PASSED!'' Null
          (Given (Inl OpenFlags_append)) Undefined [])
     = [(FsAppendFile, [JStr ''data.log'', JStr ''PASSED!'',
          JObj [(''encoding'', JStr ''utf8''), (''flags'', JStr ''a'')]])]"
proof -
  have 1: "snd (writeTextFile recorder (JStr ''data.log'') ''PASSED!'' Undefined (Given ''a'')
          JUndefined [])
     = [(FsAppendFile, [JStr ''data.log'', JStr ''PASSED!'',
          JObj [(''encoding'', JStr ''utf8''), (''flags'', JStr ''a''), (''mode'', JUndefined)]])]"
    using writeTextFile_dispatch [of recorder "JStr ''data.log''" "''PASSED!''" Undefined
        "Given ''a''" JUndefined "[]" Null Undefined Undefined,
        THEN conjunct2, THEN conjunct1]
    by simp
  have 2: "snd (writeTextFile recorder (JStr ''data.log'') ''PASSED!'' (Given ''ascii'')
          (Given ''ax+'') (JNum 420) [])
     = [(FsAppendFile, [JStr ''data.log'', JStr ''PASSED!'',
          JObj [(''encoding'', JStr ''ascii''), (''flags'', JStr ''ax+''), (''mode'', JNum 420)]])]"
    using writeTextFile_dispatch [of recorder "JStr ''data.log''" "''PASSED!''" "Given ''ascii''"
        "Given ''ax+''" "JNum 420" "[]" Null Undefined Undefined,
        THEN conjunct2, THEN conjunct1]
    by simp
  have 3: "snd (writeTextFile recorder (JStr ''data.log'') ''PASSED!'' Undefined Undefined
          JUndefined [])
     = [(FsWriteFile, [JStr ''data.log'', JStr ''PASSED!'',
          JObj [(''encoding'', JStr ''utf8''), (''flags'', JStr ''w''), (''mode'', JUndefined)]])]"
    using writeTextFile_dispatch [of recorder "JStr ''data.log''" "''PASSED!''" Undefined
        Undefined JUndefined "[]" Null Undefined Undefined,
        THEN conjunct2, THEN conjunct1]
    by simp
  have 4: "snd (writeTextFile recorder (JStr ''data.log'') ''PASSED!'' Undefined (Given ''w+'')
          JUndefined [])
     = [(FsWriteFile, [JStr ''data.log'', JStr ''PASSED!'',
          JObj [(''encoding'', JStr ''utf8''), (''flags'', JStr ''w+''), (''mode'', JUndefined)]])]"
    using writeTextFile_dispatch [of recorder "JStr ''data.log''" "''PASSED!''" Undefined
        "Given ''w+''" JUndefined "[]" Null Undefined Undefined,
        THEN conjunct2, THEN conjunct1]
    by simp
  have 5: "map fst (snd (legacy_writeTextFile recorder (JStr ''data.log'') ''PASSED!'' Null
          (Given (Inl OpenFlags_append)) Undefined [])) = [FsAppendFile]"
    using writeTextFile_dispatch [of recorder "JStr ''data.log''" "''PASSED!''" Undefined
        Undefined JUndefined "[]" Null "Given (Inl OpenFlags_append)" Undefined,
        THEN conjunct2, THEN conjunct2, THEN conjunct2, THEN conjunct2, THEN conjunct2, THEN conjunct2, THEN conjunct2, THEN conjunct2, THEN conjunct1]
    by simp
  have 6: "map fst (snd (legacy_writeTextFile recorder (JStr ''data.log'') ''PASSED!'' Null
          (Given (Inr ''a+'')) Undefined [])) = [FsAppendFile]"
    using writeTextFile_dispatch [of recorder "JStr ''data.log''" "''PASSED!''" Undefined
        Undefined JUndefined "[]" Null "Given (Inr ''a+'')" Undefined,
        THEN conjunct2, THEN conjunct2, THEN conjunct2, THEN conjunct2, THEN conjunct2, THEN conjunct2, THEN conjunct2, THEN conjunct2, THEN conjunct1]
    by simp
  have 7: "map fst (snd (legacy_writeTextFile recorder (JStr ''data.log'') ''PASSED!'' Null
          Undefined Undefined [])) = [FsWriteFile]"
    using writeTextFile_dispatch [of recorder "JStr ''data.log''" "''PASSED!''" Undefined
        Undefined JUndefined "[]" Null Undefined Undefined,
        THEN conjunct2, THEN conjunct2, THEN conjunct2, THEN conjunct2, THEN conjunct2, THEN conjunct2, THEN conjunct2, THEN conjunct2, THEN conjunct2]
    by simp
  have 8: "map fst (snd (legacy_writeTextFile recorder (JStr ''data.log'') ''PASSED!'' Null
          (Given (Inl OpenFlags_create)) Undefined [])) = [FsWriteFile]"
    using writeTextFile_dispatch [of recorder "JStr ''data.log''" "''PASSED!''" Undefined
        Undefined JUndefined "[]" Null "Given (Inl OpenFlags_create)" Undefined,
        THEN conjunct2, THEN conjunct2, THEN conjunct2, THEN conjunct2, THEN conjunct2, THEN conjunct2, THEN conjunct2, THEN conjunct2, THEN conjunct2]
    by simp
  have 9: "snd (legacy_writeTextFile recorder (JStr ''data.log'') ''PASSED!'' Null
          (Given (Inl OpenFlags_append)) Undefined [])
     = [(FsAppendFile, [JStr ''data.log'', JStr ''PASSED!'',
          JObj [(''encoding'', JStr ''utf8''), (''flags'', JStr ''a'')]])]"
    using writeTextFile_dispatch [of recorder "JStr ''data.log''" "''PASSED!''" Undefined
        Undefined JUndefined "[]" Null "Given (Inl OpenFlags_append)" Undefined,
        THEN conjunct2, THEN conjunct2, THEN conjunct2, THEN conjunct2, THEN conjunct2, THEN conjunct1]
    by (simp add: thunk_without_resolver apply_target_recorder_other createOptions_def)
  from 1 2 3 4 5 6 7 8 9 show ?thesis by (intro conjI)
qed

section \<open>Deleting\<close>

lemma del_eq:
  "del env path s =
     (case rimraf env path s of
        (None, s') \<Rightarrow> (Resolved (), s')
      | (Some e, s') \<Rightarrow> (Rejected e, s'))"
  by (simp add: del_def new_Promise_def resolve_def reject_def split: prod.splits option.splits)

lemma legacy_del_eq:
  "legacy_del env path s =
     (case fs_unlink env path s of
        (None, s') \<Rightarrow> (Resolved JUndefined, s')
      | (Some e, s') \<Rightarrow> (Rejected e, s'))"
  by (simp add: legacy_del_def legacy_unlink_def thunk_without_resolver apply_target_def
      split: prod.splits option.splits)

section \<open>Facts about paths\<close>

lemma clean_Nil [simp]: "clean []"
  by (simp add: clean_def)

lemma clean_Cons [simp]: "clean (c # cs) = (c \<noteq> [] \<and> CHR ''/'' \<notin> set c \<and> clean cs)"
  by (auto simp: clean_def)

lemma clean_append [simp]: "clean (xs @ ys) = (clean xs \<and> clean ys)"
  by (auto simp: clean_def)

lemma clean_butlast: "clean xs \<Longrightarrow> clean (butlast xs)"
  by (auto simp: clean_def dest: in_set_butlastD)

lemma plain_Nil [simp]: "plain []"
  by (simp add: plain_def)

lemma plain_butlast: "plain xs \<Longrightarrow> plain (butlast xs)"
  by (auto simp: plain_def clean_butlast dest: in_set_butlastD)

lemma plain_append [simp]: "plain (xs @ ys) = (plain xs \<and> plain ys)"
  by (auto simp: plain_def)

lemma split_path_clean: "clean (split_path p)"
proof (induction p rule: split_path.induct)
  case 1
  then show ?case by simp
next
  case (2 c cs)
  then show ?case by (auto dest: set_takeWhileD)
qed

lemma takeWhile_no_slash:
  "CHR ''/'' \<notin> set xs \<Longrightarrow>
   takeWhile (\<lambda>x. x \<noteq> CHR ''/'') (xs @ ys) = xs @ takeWhile (\<lambda>x. x \<noteq> CHR ''/'') ys"
  by (induction xs) auto

lemma dropWhile_no_slash:
  "CHR ''/'' \<notin> set xs \<Longrightarrow>
   dropWhile (\<lambda>x. x \<noteq> CHR ''/'') (xs @ ys) = dropWhile (\<lambda>x. x \<noteq> CHR ''/'') ys"
  by (induction xs) auto

lemma split_path_joined:
  "clean segs \<Longrightarrow> split_path (concat (map (\<lambda>c. CHR ''/'' # c) segs)) = segs"
proof (induction segs)
  case Nil
  then show ?case by simp
next
  case (Cons c segs)
  then obtain a c' where c: "c = a # c'" and a: "a \<noteq> CHR ''/''" and c': "CHR ''/'' \<notin> set c'"
    by (cases c) auto
  let ?rest = "concat (map (\<lambda>c. CHR ''/'' # c) segs)"
  have rest: "takeWhile (\<lambda>x. x \<noteq> CHR ''/'') ?rest = []"
    by (cases segs) simp_all
  have rest': "dropWhile (\<lambda>x. x \<noteq> CHR ''/'') ?rest = ?rest"
    by (cases segs) simp_all
  have tw: "takeWhile (\<lambda>x. x \<noteq> CHR ''/'') (c' @ ?rest) = c'"
    using c' rest by (simp add: takeWhile_no_slash)
  have dw: "dropWhile (\<lambda>x. x \<noteq> CHR ''/'') (c' @ ?rest) = ?rest"
    using c' rest' by (simp add: dropWhile_no_slash)
  from Cons show ?case
    using a tw dw by (simp add: c)
qed

lemma split_join: "clean segs \<Longrightarrow> split_path (join_path segs) = segs"
proof (cases segs)
  case Nil
  then show ?thesis by (simp add: join_path_def)
next
  case (Cons c cs)
  assume "clean segs"
  then have "split_path (concat (map (\<lambda>c. CHR ''/'' # c) segs)) = segs"
    by (rule split_path_joined)
  then show ?thesis using Cons by (simp add: join_path_def)
qed

lemma join_absolute: "is_absolute (join_path segs)"
  by (cases segs) (simp_all add: join_path_def is_absolute_def)

lemma join_nonempty: "join_path segs \<noteq> []"
  by (cases segs) (simp_all add: join_path_def)

lemma normalize_plain: "plain acc \<Longrightarrow> clean cs \<Longrightarrow> plain (normalize acc cs)"
proof (induction acc cs rule: normalize.induct)
  case (1 acc)
  then show ?case by simp
next
  case (2 acc c cs)
  then show ?case by (auto simp: plain_butlast) (auto simp: plain_def)
qed

lemma normalize_id: "plain cs \<Longrightarrow> normalize acc cs = acc @ cs"
  by (induction acc cs rule: normalize.induct) (auto simp: plain_def)

lemma parse_path_plain: "plain (parse_path cwd p)"
  unfolding parse_path_def
  by (rule normalize_plain) (simp_all add: split_path_clean)

lemma parse_join: "plain segs \<Longrightarrow> parse_path cwd (join_path segs) = segs"
  by (simp add: parse_path_def join_absolute split_join normalize_id plain_def)

lemma resolve_join: "plain segs \<Longrightarrow> posix_resolve cwd (join_path segs) = join_path segs"
  by (simp add: posix_resolve_def parse_join)

lemma dirname_join: "plain segs \<Longrightarrow> posix_dirname (join_path segs) = join_path (butlast segs)"
  by (simp add: posix_dirname_def join_absolute split_join plain_def)

lemma resolve_resolve: "posix_resolve cwd (posix_resolve cwd p) = posix_resolve cwd p"
  by (simp add: posix_resolve_def parse_join parse_path_plain)

section \<open>Facts about path resolution in the tree\<close>

lemma entry_root [simp]: "entry fs [] = Some Dir"
  by (simp add: entry_def)

lemma entry_add:
  "entry (fs\<lparr>entries := (k, n) # entries fs\<rparr>) q =
     (if q = [] then Some Dir else if q = k then Some n else entry fs q)"
  by (simp add: entry_def)

lemma namei_dirs:
  "(\<forall>n < length rest. entry fs (cur @ take n rest) = Some Dir)
   \<Longrightarrow> (\<forall>t. rest \<noteq> [] \<longrightarrow> entry fs (cur @ rest) \<noteq> Some (Link t))
   \<Longrightarrow> entry fs (cur @ rest) \<noteq> None
   \<Longrightarrow> namei fuel fs follow cur rest = Inr (cur @ rest)"
proof (induction rest arbitrary: cur)
  case Nil
  then show ?case by auto
next
  case (Cons c r)
  have cur: "entry fs cur = Some Dir"
    using Cons.prems(1) by (auto dest: spec [of _ 0])
  have step: "\<forall>n < length r. entry fs ((cur @ [c]) @ take n r) = Some Dir"
  proof (intro allI impI)
    fix n assume "n < length r"
    then have "Suc n < length (c # r)" by simp
    from Cons.prems(1) [rule_format, OF this] show "entry fs ((cur @ [c]) @ take n r) = Some Dir"
      by simp
  qed
  have nolink: "\<forall>t. entry fs (cur @ [c]) \<noteq> Some (Link t)"
  proof (cases r)
    case Nil
    then show ?thesis using Cons.prems(2) by simp
  next
    case (Cons a list)
    have "Suc 0 < length (c # r)" using Cons by simp
    from Cons.prems(1) [rule_format, OF this] show ?thesis by simp
  qed
  have "namei fuel fs follow (cur @ [c]) r = Inr ((cur @ [c]) @ r)"
    using step Cons.prems(2,3) by (intro Cons.IH) auto
  then show ?case
    using cur nolink by (auto split: option.splits node.splits)
qed

lemma namei_missing:
  "(\<forall>n \<le> length rest. entry fs (cur @ take n rest) = None \<or> entry fs (cur @ take n rest) = Some Dir)
   \<Longrightarrow> (\<exists>n \<le> length rest. entry fs (cur @ take n rest) = None)
   \<Longrightarrow> namei fuel fs follow cur rest = Inl ''ENOENT''"
proof (induction rest arbitrary: cur)
  case Nil
  then show ?case by auto
next
  case (Cons c r)
  show ?case
  proof (cases "entry fs cur")
    case None
    then show ?thesis by simp
  next
    case (Some x)
    with Cons.prems(1) [rule_format, of 0] have cur: "entry fs cur = Some Dir" by simp
    have step: "\<forall>n \<le> length r. entry fs ((cur @ [c]) @ take n r) = None
        \<or> entry fs ((cur @ [c]) @ take n r) = Some Dir"
    proof (intro allI impI)
      fix n assume "n \<le> length r"
      then have "Suc n \<le> length (c # r)" by simp
      from Cons.prems(1) [rule_format, OF this]
      show "entry fs ((cur @ [c]) @ take n r) = None \<or> entry fs ((cur @ [c]) @ take n r) = Some Dir"
        by simp
    qed
    from Cons.prems(2) obtain n where n: "n \<le> length (c # r)" "entry fs (cur @ take n (c # r)) = None"
      by blast
    with cur obtain n' where n': "n = Suc n'" by (cases n) auto
    with n have "\<exists>n \<le> length r. entry fs ((cur @ [c]) @ take n r) = None"
      by (intro exI [of _ n']) simp
    with step have "namei fuel fs follow (cur @ [c]) r = Inl ''ENOENT''"
      by (rule Cons.IH)
    moreover have "\<forall>t. entry fs (cur @ [c]) \<noteq> Some (Link t)"
      using step [rule_format, of 0] by auto
    ultimately show ?thesis using cur by (auto split: option.splits node.splits)
  qed
qed

lemma namei_file:
  "(\<forall>m < n. entry fs (cur @ take m rest) = Some Dir)
   \<Longrightarrow> entry fs (cur @ take n rest) = Some File
   \<Longrightarrow> n < length rest
   \<Longrightarrow> namei fuel fs follow cur rest = Inl ''ENOTDIR''"
proof (induction rest arbitrary: cur n)
  case Nil
  then show ?case by simp
next
  case (Cons c r)
  show ?case
  proof (cases n)
    case 0
    then show ?thesis using Cons.prems by simp
  next
    case (Suc n')
    have cur: "entry fs cur = Some Dir"
      using Cons.prems(1) [rule_format, of 0] Suc by simp
    have step: "\<forall>m < n'. entry fs ((cur @ [c]) @ take m r) = Some Dir"
    proof (intro allI impI)
      fix m assume "m < n'"
      then have "Suc m < n" using Suc by simp
      from Cons.prems(1) [rule_format, OF this] show "entry fs ((cur @ [c]) @ take m r) = Some Dir"
        by simp
    qed
    have "namei fuel fs follow (cur @ [c]) r = Inl ''ENOTDIR''"
      using step Cons.prems(2,3) Suc by (intro Cons.IH [of n']) auto
    moreover have "\<forall>t. entry fs (cur @ [c]) \<noteq> Some (Link t)"
    proof (cases n')
      case 0
      then show ?thesis using Cons.prems(2) Suc by simp
    next
      case (Suc k)
      then show ?thesis using step [rule_format, of 0] by simp
    qed
    ultimately show ?thesis using cur by (auto split: option.splits node.splits)
  qed
qed


lemma namei_None: "entry fs cur = None \<Longrightarrow> namei fuel fs follow cur rest = Inl ''ENOENT''"
  by (cases rest) simp_all

lemma namei_add:
  "namei fuel fs follow cur path = Inr d
   \<Longrightarrow> entry fs k = None
   \<Longrightarrow> namei fuel (fs\<lparr>entries := (k, n) # entries fs\<rparr>) follow cur path = Inr d"
proof (induction fuel fs follow cur path rule: namei.induct)
  case (1 fuel fs follow cur)
  then show ?case by (auto simp: entry_add split: option.splits)
next
  case (2 fuel fs follow cur c rest)
  let ?fs' = "fs\<lparr>entries := (k, n) # entries fs\<rparr>"
  from "2.prems" have cur: "entry fs cur = Some Dir"
    by (auto split: option.splits node.splits)
  then have cur': "entry ?fs' cur = Some Dir"
    using "2.prems"(2) by (auto simp: entry_add)
  show ?case
  proof (cases "entry fs (cur @ [c])")
    case None
    then have "namei fuel fs follow (cur @ [c]) rest = Inr d"
      using "2.prems"(1) cur by simp
    then have False using None by (simp add: namei_None)
    then show ?thesis ..
  next
    case (Some x)
    then have same: "entry ?fs' (cur @ [c]) = Some x"
      using "2.prems"(2) by (auto simp: entry_add)
    show ?thesis
      using "2.IH" "2.prems" Some same cur cur'
      by (cases x) (auto split: nat.splits if_splits)
  qed
qed


lemma namei_snoc:
  "namei fuel fs follow cur init = Inr d
   \<Longrightarrow> follow
   \<Longrightarrow> entry fs d = Some Dir
   \<Longrightarrow> entry fs (d @ [l]) = Some Dir
   \<Longrightarrow> namei fuel fs follow cur (init @ [l]) = Inr (d @ [l])"
proof (induction fuel fs follow cur init rule: namei.induct)
  case (1 fuel fs follow cur)
  then show ?case by (auto split: option.splits)
next
  case (2 fuel fs follow cur c rest)
  from "2.prems" have cur: "entry fs cur = Some Dir"
    by (auto split: option.splits node.splits)
  show ?case
  proof (cases "entry fs (cur @ [c])")
    case None
    then have "namei fuel fs follow (cur @ [c]) rest = Inr d"
      using "2.prems"(1) cur by simp
    then have False using None by (simp add: namei_None)
    then show ?thesis ..
  next
    case (Some x)
    show ?thesis
      using "2.IH" "2.prems" Some cur
      by (cases x) (auto split: nat.splits if_splits)
  qed
qed

lemma namei_unsnoc:
  "namei fuel fs follow cur path = Inr k
   \<Longrightarrow> follow
   \<Longrightarrow> path = init @ [l]
   \<Longrightarrow> \<exists>d. namei fuel fs follow cur init = Inr d \<and> entry fs d = Some Dir
           \<and> entry fs (d @ [l]) \<noteq> None"
proof (induction fuel fs follow cur path arbitrary: init rule: namei.induct)
  case (1 fuel fs follow cur)
  then show ?case by simp
next
  case (2 fuel fs follow cur c rest)
  have eq: "c # rest = init @ [l]" using "2.prems"(3) .
  have w0: "namei fuel fs follow cur (c # rest) = Inr k"
    using "2.prems"(1) eq by simp
  have fo: "follow" using "2.prems"(2) .
  from w0 have cur: "entry fs cur = Some Dir"
    by (auto split: option.splits node.splits)
  show ?case
  proof (cases "entry fs (cur @ [c])")
    case None
    then have "namei fuel fs follow (cur @ [c]) rest = Inr k"
      using w0 cur by simp
    then have False using None by (simp add: namei_None)
    then show ?thesis ..
  next
    case (Some x)
    show ?thesis
    proof (cases init)
      case Nil
      then have l: "c = l" "rest = []" using eq by simp_all
      then show ?thesis using Nil cur Some by simp
    next
      case (Cons a init')
      then have ci: "a = c" "rest = init' @ [l]" using eq by simp_all
      show ?thesis
      proof (cases x)
        case Dir
        then have "namei fuel fs follow (cur @ [c]) rest = Inr k"
          using w0 cur Some by simp
        from "2.IH"(2) [OF cur refl Some Dir this fo ci(2)]
        show ?thesis using Cons ci cur Some Dir by simp
      next
        case File
        then have "namei fuel fs follow (cur @ [c]) rest = Inr k"
          using w0 cur Some by simp
        from "2.IH"(3) [OF cur refl Some File this fo ci(2)]
        show ?thesis using Cons ci cur Some File by simp
      next
        case (Link t)
        from w0 fo cur Some Link ci obtain f where
          f: "fuel = Suc f" and w: "namei f fs follow [] (t @ rest) = Inr k"
          by (auto split: nat.splits if_splits)
        have nl: "\<not> (rest = [] \<and> \<not> follow)" using fo by simp
        have "t @ rest = (t @ init') @ [l]" using ci by simp
        from "2.IH"(4) [OF cur refl Some Link nl f w fo this]
        obtain d where d: "namei f fs follow [] (t @ init') = Inr d" "entry fs d = Some Dir"
          "entry fs (d @ [l]) \<noteq> None" by auto
        then show ?thesis using Cons ci cur Some Link f fo by auto
      qed
    qed
  qed
qed

section \<open>Recursive directory creation on any platform\<close>

lemma mkdirp_created:
  "fs_mkdir env (path_resolve env p) (if m = JUndefined then JNum 511 else m) s = (None, s1)
   \<Longrightarrow> mkdirp env p m s = Some (None, s1)"
  by (subst mkdirp.simps) (simp add: Let_def)

lemma mkdirp_not_missing:
  "fs_mkdir env (path_resolve env p) (if m = JUndefined then JNum 511 else m) s = (Some err, s1)
   \<Longrightarrow> code err \<noteq> Some ''ENOENT''
   \<Longrightarrow> mkdirp env p m s =
       Some (case fs_stat env (path_resolve env p) s1 of
               Inl e \<Rightarrow> Some e
             | Inr st \<Rightarrow>
                 if \<not> isDirectory st
                 then Some (PlainError (path_resolve env p @ '' is already a file''))
                 else None, s1)"
  by (subst mkdirp.simps) (simp add: Let_def)

lemma mkdirp_missing:
  "fs_mkdir env (path_resolve env p) (if m = JUndefined then JNum 511 else m) s = (Some err, s1)
   \<Longrightarrow> code err = Some ''ENOENT''
   \<Longrightarrow> mkdirp env p m s =
       (case mkdirp env (path_dirname env (path_resolve env p))
               (if m = JUndefined then JNum 511 else m) s1 of
          None \<Rightarrow> None
        | Some (Some e, s2) \<Rightarrow> Some (Some e, s2)
        | Some (None, s2) \<Rightarrow>
            mkdirp env (path_resolve env p) (if m = JUndefined then JNum 511 else m) s2)"
  by (subst mkdirp.simps) (simp add: Let_def split: option.splits prod.splits bind_splits)

lemma mkdirp_success_is_dir:
  assumes "mkdirp env p m s = Some y"
  shows "mkdir_stat_laws env \<longrightarrow> fst y = None
         \<longrightarrow> (\<exists>st. fs_stat env (path_resolve env p) (snd y) = Inr st \<and> isDirectory st)"
  using assms
proof (induct rule: mkdirp.raw_induct [rotated 1, consumes 1])
  case (1 mkdirp env path0 mode0 s y)
  show ?case
  proof (intro impI)
    assume laws: "mkdir_stat_laws env" and ok: "fst y = None"
    let ?mode = "if mode0 = JUndefined then JNum 511 else mode0"
    let ?path = "path_resolve env path0"
    obtain r s1 where mk: "fs_mkdir env ?path ?mode s = (r, s1)"
      by (cases "fs_mkdir env ?path ?mode s")
    show "\<exists>st. fs_stat env ?path (snd y) = Inr st \<and> isDirectory st"
    proof (cases r)
      case None
      then have "y = (None, s1)" using "1"(2) mk by (simp add: Let_def)
      then show ?thesis using laws mk None by (auto simp: mkdir_stat_laws_def)
    next
      case (Some err)
      show ?thesis
      proof (cases "code err = Some ''ENOENT''")
        case False
        then have y: "y = (case fs_stat env ?path s1 of
               Inl e \<Rightarrow> Some e
             | Inr st \<Rightarrow>
                 if \<not> isDirectory st
                 then Some (PlainError (?path @ '' is already a file''))
                 else None, s1)"
          using "1"(2) mk Some by (simp add: Let_def)
        then show ?thesis using ok by (auto split: sum.splits if_splits)
      next
        case True
        then have b: "Option.bind (mkdirp env (path_dirname env ?path) ?mode s1)
                 (\<lambda>(err', s2).
                    case err' of
                      None \<Rightarrow> mkdirp env ?path ?mode s2
                    | Some e \<Rightarrow> Some (Some e, s2)) = Some y"
          using "1"(2) mk Some by (simp add: Let_def)
        then obtain e2 s2 where
          first: "mkdirp env (path_dirname env ?path) ?mode s1 = Some (e2, s2)"
          and rest: "(case e2 of None \<Rightarrow> mkdirp env ?path ?mode s2
                      | Some e \<Rightarrow> Some (Some e, s2)) = Some y"
          by (auto simp: bind_eq_Some_conv)
        from rest ok have e2: "e2 = None" by (cases e2) auto
        with rest have retry: "mkdirp env ?path ?mode s2 = Some y" by simp
        from "1"(1) [OF retry] laws ok
        have "\<exists>st. fs_stat env (path_resolve env ?path) (snd y) = Inr st \<and> isDirectory st"
          by simp
        then show ?thesis using laws by (simp add: mkdir_stat_laws_def)
      qed
    qed
  qed
qed

lemma mkdirp_idempotent:
  assumes laws: "mkdir_stat_laws env"
    and first: "mkdirp env p m s = Some (None, s')"
  shows "mkdirp env p m s' = Some (None, s')"
proof -
  let ?mode = "if m = JUndefined then JNum 511 else m"
  let ?path = "path_resolve env p"
  from mkdirp_success_is_dir [OF first] laws
  obtain st where st: "fs_stat env ?path s' = Inr st" "isDirectory st" by auto
  with laws obtain e where e: "fs_mkdir env ?path ?mode s' = (Some e, s')"
    "code e \<noteq> Some ''ENOENT''"
    unfolding mkdir_stat_laws_def by blast
  from mkdirp_not_missing [OF e] st show ?thesis by simp
qed

section \<open>The tree platform keeps the laws\<close>

lemma posix_fields [simp]:
  "fs_mkdir (posix cwd) = posix_mkdir cwd"
  "fs_stat (posix cwd) = posix_stat cwd"
  "fs_lstat (posix cwd) = posix_lstat cwd"
  "fs_unlink (posix cwd) = posix_unlink cwd"
  "rimraf (posix cwd) = posix_rimraf cwd"
  "fs_access (posix cwd) = posix_access cwd"
  "path_resolve (posix cwd) = posix_resolve cwd"
  "path_dirname (posix cwd) = posix_dirname"
  by (simp_all add: posix_def)

lemma posix_stat_exists:
  assumes "posix_stat cwd p fs = Inr st"
  shows "posix_mkdir cwd p m fs = (Some (SysError ''EEXIST'' ''mkdir'' p), fs)"
proof -
  let ?segs = "parse_path cwd p"
  from assms obtain k n where p: "p \<noteq> []" and w: "namei 40 fs True [] ?segs = Inr k"
    and k: "entry fs k = Some n"
    by (auto simp: posix_stat_def lookup_path_def split: if_splits sum.splits option.splits)
  show ?thesis
  proof (cases "?segs = []")
    case True
    then show ?thesis using p by (simp add: posix_mkdir_def lookup_parent_def)
  next
    case False
    then have "?segs = butlast ?segs @ [last ?segs]" by simp
    from namei_unsnoc [OF w _ this] obtain d where
      "namei 40 fs True [] (butlast ?segs) = Inr d" "entry fs d = Some Dir"
      "entry fs (d @ [last ?segs]) \<noteq> None" by auto
    then show ?thesis using p False
      by (auto simp: posix_mkdir_def lookup_parent_def Let_def)
  qed
qed

lemma posix_mkdir_is_dir:
  assumes "posix_mkdir cwd p m fs = (None, fs')"
  shows "posix_stat cwd p fs' = Inr (stats_of Dir)"
proof -
  let ?segs = "parse_path cwd p"
  from assms obtain k where par: "lookup_parent cwd p fs = Inr k" and k: "entry fs k = None"
    and fs': "fs' = fs\<lparr>entries := (k, Dir) # entries fs\<rparr>"
    by (auto simp: posix_mkdir_def split: sum.splits option.splits if_splits)
  from k have "k \<noteq> []" by auto
  with par obtain d where p: "p \<noteq> []" and ne: "?segs \<noteq> []"
    and w: "namei 40 fs True [] (butlast ?segs) = Inr d"
    and d: "entry fs d = Some Dir" and kd: "k = d @ [last ?segs]"
    by (auto simp: lookup_parent_def Let_def split: if_splits sum.splits option.splits node.splits)
  have w': "namei 40 fs' True [] (butlast ?segs) = Inr d"
    unfolding fs' using w k by (rule namei_add)
  have d': "entry fs' d = Some Dir"
    using d k by (auto simp: fs' entry_add)
  have k': "entry fs' (d @ [last ?segs]) = Some Dir"
    using kd \<open>k \<noteq> []\<close> by (simp add: fs' entry_add)
  from namei_snoc [OF w' _ d' k'] have "namei 40 fs' True [] (butlast ?segs @ [last ?segs]) = Inr k"
    using kd by simp
  then have "namei 40 fs' True [] ?segs = Inr k" using ne by simp
  then show ?thesis using p k' kd
    by (simp add: posix_stat_def lookup_path_def)
qed

lemma posix_laws: "mkdir_stat_laws (posix cwd)"
  unfolding mkdir_stat_laws_def
proof (intro conjI allI impI)
  fix p m s s'
  assume "fs_mkdir (posix cwd) p m s = (None, s')"
  then have "posix_stat cwd p s' = Inr (stats_of Dir)"
    by (simp add: posix_mkdir_is_dir)
  then show "\<exists>st. fs_stat (posix cwd) p s' = Inr st \<and> isDirectory st"
    by (simp add: stats_of_def)
next
  fix p m s st
  assume "fs_stat (posix cwd) p s = Inr st"
  then have "posix_mkdir cwd p m s = (Some (SysError ''EEXIST'' ''mkdir'' p), s)"
    by (simp add: posix_stat_exists)
  then show "\<exists>e. fs_mkdir (posix cwd) p m s = (Some e, s) \<and> code e \<noteq> Some ''ENOENT''"
    by simp
next
  fix p
  show "path_resolve (posix cwd) (path_resolve (posix cwd) p) = path_resolve (posix cwd) p"
    by (simp add: resolve_resolve)
qed

section \<open>Recursive directory creation in the tree\<close>

lemma strict_prefix_take: "n < length xs \<Longrightarrow> strict_prefix (take n xs) xs"
  by (metis nat_neq_iff length_take min.absorb2 less_imp_le_nat strict_prefix_def take_is_prefix)

lemma prefix_as_take: "prefix q xs \<Longrightarrow> q = take (length q) xs"
  by (auto simp: prefix_def)

lemma strict_prefix_length: "strict_prefix q xs \<Longrightarrow> length q < length xs"
  by (auto simp: strict_prefix_def prefix_def)

lemma take_butlast_lt: "n \<le> length (butlast xs) \<Longrightarrow> take n (butlast xs) = take n xs"
  by (auto simp: butlast_conv_take min_def split: if_splits)

lemma mkdirp_resolved:
  assumes "path_resolve env (path_resolve env p) = path_resolve env p"
  shows "mkdirp env (path_resolve env p) m s = mkdirp env p m s"
proof -
  have 1: "mkdirp env (path_resolve env p) m s =
     (let mode = (if m = JUndefined then JNum 511 else m);
          path = path_resolve env (path_resolve env p)
      in case fs_mkdir env path mode s of
           (None, s1) \<Rightarrow> Some (None, s1)
         | (Some err, s1) \<Rightarrow>
             if code err = Some ''ENOENT'' then
               Option.bind (mkdirp env (path_dirname env path) mode s1)
                 (\<lambda>(err', s2).
                    case err' of
                      None \<Rightarrow> mkdirp env path mode s2
                    | Some e \<Rightarrow> Some (Some e, s2))
             else
               Some (case fs_stat env path s1 of
                       Inl e \<Rightarrow> Some e
                     | Inr st \<Rightarrow>
                         if \<not> isDirectory st
                         then Some (PlainError (path @ '' is already a file''))
                         else None, s1))"
    by (rule mkdirp.simps)
  show ?thesis
    unfolding 1 assms by (subst (3) mkdirp.simps) simp
qed

lemma posix_mkdir_ready:
  assumes pl: "plain segs" and ne: "segs \<noteq> []"
    and dirs: "\<forall>q. strict_prefix q segs \<longrightarrow> entry fs q = Some Dir"
  shows "posix_mkdir cwd (join_path segs) m fs =
     (case entry fs segs of
        Some n \<Rightarrow> (Some (SysError ''EEXIST'' ''mkdir'' (join_path segs)), fs)
      | None \<Rightarrow>
          if readonly fs then (Some (SysError ''EROFS'' ''mkdir'' (join_path segs)), fs)
          else (None, fs\<lparr>entries := (segs, Dir) # entries fs\<rparr>))"
proof -
  let ?init = "butlast segs"
  have sp: "strict_prefix ?init segs"
    using ne by (metis append_butlast_last_id not_Cons_self2 prefixI self_append_conv strict_prefix_def)
  have 1: "\<forall>n < length ?init. entry fs ([] @ take n ?init) = Some Dir"
  proof (intro allI impI)
    fix n assume n: "n < length ?init"
    then have "take n ?init = take n segs" by (simp add: take_butlast_lt)
    moreover have "strict_prefix (take n segs) segs"
      using n by (intro strict_prefix_take) simp
    ultimately show "entry fs ([] @ take n ?init) = Some Dir" using dirs by simp
  qed
  have 2: "entry fs ([] @ ?init) = Some Dir" using dirs sp by simp
  have "namei 40 fs True [] ?init = Inr ([] @ ?init)"
    using 1 2 by (intro namei_dirs) auto
  then show ?thesis
    using ne 2 pl
    by (simp add: posix_mkdir_def lookup_parent_def parse_join join_nonempty Let_def)
qed

lemma posix_mkdir_missing:
  assumes pl: "plain segs"
    and ok: "\<forall>q. prefix q segs \<longrightarrow> entry fs q = None \<or> entry fs q = Some Dir"
    and miss: "strict_prefix q segs" "entry fs q = None"
  shows "posix_mkdir cwd (join_path segs) m fs =
           (Some (SysError ''ENOENT'' ''mkdir'' (join_path segs)), fs)"
proof -
  let ?init = "butlast segs"
  from miss(1) have ne: "segs \<noteq> []" by auto
  have 1: "\<forall>n \<le> length ?init. entry fs ([] @ take n ?init) = None
              \<or> entry fs ([] @ take n ?init) = Some Dir"
  proof (intro allI impI)
    fix n assume n: "n \<le> length ?init"
    then have "take n ?init = take n segs" by (simp add: take_butlast_lt)
    then show "entry fs ([] @ take n ?init) = None \<or> entry fs ([] @ take n ?init) = Some Dir"
      using ok take_is_prefix [of n segs] by simp
  qed
  have lq: "length q \<le> length ?init"
    using strict_prefix_length [OF miss(1)] by simp
  have "take (length q) ?init = q"
    using lq miss(1) prefix_as_take [of q segs] by (simp add: take_butlast_lt strict_prefix_def)
  then have 2: "\<exists>n \<le> length ?init. entry fs ([] @ take n ?init) = None"
    using lq miss(2) by (intro exI [of _ "length q"]) simp
  have "namei 40 fs True [] ?init = Inl ''ENOENT''"
    using 1 2 by (rule namei_missing)
  then show ?thesis
    using ne pl
    by (simp add: posix_mkdir_def lookup_parent_def parse_join join_nonempty Let_def)
qed

lemma posix_stat_dirs:
  assumes pl: "plain segs"
    and dirs: "\<forall>q. prefix q segs \<longrightarrow> entry fs q = Some Dir"
  shows "posix_stat cwd (join_path segs) fs = Inr (stats_of Dir)"
proof -
  have 1: "\<forall>n < length segs. entry fs ([] @ take n segs) = Some Dir"
    by (simp add: dirs take_is_prefix)
  have 2: "entry fs ([] @ segs) = Some Dir" using dirs by simp
  have "namei 40 fs True [] segs = Inr ([] @ segs)"
    using 1 2 by (intro namei_dirs) auto
  then show ?thesis using 2 pl
    by (simp add: posix_stat_def lookup_path_def parse_join join_nonempty)
qed


lemma mkdirp_posix_ready:
  assumes pl: "plain segs" and rw: "\<not> readonly fs"
    and dirs: "\<forall>q. strict_prefix q segs \<longrightarrow> entry fs q = Some Dir"
    and last: "entry fs segs = None \<or> entry fs segs = Some Dir"
  shows "\<exists>fs'. mkdirp (posix cwd) (join_path segs) m fs = Some (None, fs')
           \<and> \<not> readonly fs'
           \<and> (\<forall>q. prefix q segs \<longrightarrow> entry fs' q = Some Dir)
           \<and> (\<forall>q. \<not> prefix q segs \<longrightarrow> entry fs' q = entry fs q)"
proof (cases "entry fs segs")
  case None
  then have ne: "segs \<noteq> []" by auto
  let ?fs' = "fs\<lparr>entries := (segs, Dir) # entries fs\<rparr>"
  have "posix_mkdir cwd (join_path segs) (if m = JUndefined then JNum 511 else m) fs = (None, ?fs')"
    using posix_mkdir_ready [OF pl ne dirs] None rw by simp
  then have "mkdirp (posix cwd) (join_path segs) m fs = Some (None, ?fs')"
    using pl by (intro mkdirp_created) (simp add: resolve_join)
  moreover have "\<forall>q. prefix q segs \<longrightarrow> entry ?fs' q = Some Dir"
    using dirs by (auto simp: entry_add strict_prefix_def)
  moreover have "\<forall>q. \<not> prefix q segs \<longrightarrow> entry ?fs' q = entry fs q"
    by (auto simp: entry_add)
  ultimately show ?thesis using rw by (intro exI [of _ ?fs']) simp
next
  case (Some n)
  with last have n: "entry fs segs = Some Dir" by simp
  have all: "\<forall>q. prefix q segs \<longrightarrow> entry fs q = Some Dir"
    using dirs n by (auto simp: strict_prefix_def)
  have mk: "posix_mkdir cwd (join_path segs) (if m = JUndefined then JNum 511 else m) fs =
          (Some (SysError ''EEXIST'' ''mkdir'' (join_path segs)), fs)"
    by (rule posix_stat_exists) (rule posix_stat_dirs [OF pl all])
  have "mkdirp (posix cwd) (join_path segs) m fs = Some (None, fs)"
    using mkdirp_not_missing [of "posix cwd" "join_path segs" m fs _ fs] mk pl
      posix_stat_dirs [OF pl all, of cwd]
    by (simp add: resolve_join stats_of_def)
  then show ?thesis using all rw by (intro exI [of _ fs]) simp
qed

lemma mkdirp_posix_creates:
  "plain segs \<Longrightarrow> \<not> readonly fs
   \<Longrightarrow> (\<forall>q. prefix q segs \<longrightarrow> entry fs q = None \<or> entry fs q = Some Dir)
   \<Longrightarrow> \<exists>fs'. mkdirp (posix cwd) (join_path segs) m fs = Some (None, fs')
           \<and> \<not> readonly fs'
           \<and> (\<forall>q. prefix q segs \<longrightarrow> entry fs' q = Some Dir)
           \<and> (\<forall>q. \<not> prefix q segs \<longrightarrow> entry fs' q = entry fs q)"
proof (induction segs arbitrary: fs m rule: rev_induct)
  case Nil
  then show ?case by (intro mkdirp_posix_ready) auto
next
  case (snoc l init)
  let ?segs = "init @ [l]"
  let ?mode = "if m = JUndefined then JNum 511 else m"
  have pl: "plain ?segs" and pli: "plain init" using snoc.prems(1) by simp_all
  have ok: "\<forall>q. prefix q ?segs \<longrightarrow> entry fs q = None \<or> entry fs q = Some Dir"
    using snoc.prems(3) .
  show ?case
  proof (cases "\<forall>q. strict_prefix q ?segs \<longrightarrow> entry fs q = Some Dir")
    case True
    then show ?thesis using pl snoc.prems(2) ok by (intro mkdirp_posix_ready) auto
  next
    case False
    then obtain q where q: "strict_prefix q ?segs" "entry fs q = None"
      using ok by (auto simp: strict_prefix_def)
    have mk: "fs_mkdir (posix cwd) (path_resolve (posix cwd) (join_path ?segs)) ?mode fs =
            (Some (SysError ''ENOENT'' ''mkdir'' (join_path ?segs)), fs)"
      using posix_mkdir_missing [OF pl ok q] pl by (simp add: resolve_join)
    have oki: "\<forall>q. prefix q init \<longrightarrow> entry fs q = None \<or> entry fs q = Some Dir"
      using ok by (simp add: prefix_prefix)
    from snoc.IH [OF pli snoc.prems(2) oki, of ?mode] obtain fs1 where
      par: "mkdirp (posix cwd) (join_path init) ?mode fs = Some (None, fs1)"
      and rw1: "\<not> readonly fs1"
      and dirs1: "\<forall>q. prefix q init \<longrightarrow> entry fs1 q = Some Dir"
      and frame1: "\<forall>q. \<not> prefix q init \<longrightarrow> entry fs1 q = entry fs q"
      by blast
    have sp1: "\<forall>q. strict_prefix q ?segs \<longrightarrow> entry fs1 q = Some Dir"
      using dirs1 by (auto simp: strict_prefix_def)
    have "entry fs1 ?segs = entry fs ?segs" using frame1 by (simp add: prefix_def)
    then have last1: "entry fs1 ?segs = None \<or> entry fs1 ?segs = Some Dir" using ok by auto
    from mkdirp_posix_ready [OF pl rw1 sp1 last1, of cwd ?mode] obtain fs' where
      retry: "mkdirp (posix cwd) (join_path ?segs) ?mode fs1 = Some (None, fs')"
      and rw': "\<not> readonly fs'"
      and dirs': "\<forall>q. prefix q ?segs \<longrightarrow> entry fs' q = Some Dir"
      and frame': "\<forall>q. \<not> prefix q ?segs \<longrightarrow> entry fs' q = entry fs1 q"
      by blast
    have "mkdirp (posix cwd) (join_path ?segs) m fs = Some (None, fs')"
      using mkdirp_missing [OF mk] par retry pl
      by (simp add: resolve_join dirname_join)
    moreover have "\<forall>q. \<not> prefix q ?segs \<longrightarrow> entry fs' q = entry fs q"
    proof (intro allI impI)
      fix q assume nq: "\<not> prefix q ?segs"
      then have "\<not> prefix q init" using prefix_prefix by blast
      then show "entry fs' q = entry fs q" using nq frame' frame1 by simp
    qed
    ultimately show ?thesis using rw' dirs' by (intro exI [of _ fs']) simp
  qed
qed

lemma posix_file_in_the_way:
  assumes pl: "plain segs"
    and q: "strict_prefix q segs" "entry fs q = Some File"
    and dirs: "\<forall>r. strict_prefix r q \<longrightarrow> entry fs r = Some Dir"
  shows "posix_mkdir cwd (join_path segs) m fs =
           (Some (SysError ''ENOTDIR'' ''mkdir'' (join_path segs)), fs)"
    and "posix_stat cwd (join_path segs) fs = Inl (SysError ''ENOTDIR'' ''stat'' (join_path segs))"
proof -
  let ?init = "butlast segs"
  let ?n = "length q"
  from q(1) have ne: "segs \<noteq> []" by auto
  have n: "?n < length segs" using q(1) by (rule strict_prefix_length)
  have qt: "q = take ?n segs" using q(1) by (intro prefix_as_take) (simp add: strict_prefix_def)
  have below: "\<forall>m < ?n. entry fs ([] @ take m segs) = Some Dir"
  proof (intro allI impI)
    fix m assume m: "m < ?n"
    then have "take m segs = take m q" using qt by (metis min.absorb1 less_imp_le_nat take_take)
    moreover have "strict_prefix (take m q) q" using m by (rule strict_prefix_take)
    ultimately show "entry fs ([] @ take m segs) = Some Dir" using dirs by simp
  qed
  have at: "entry fs ([] @ take ?n segs) = Some File" using q(2) qt by simp
  have "namei 40 fs True [] segs = Inl ''ENOTDIR''"
    using below at n by (rule namei_file)
  then show "posix_stat cwd (join_path segs) fs = Inl (SysError ''ENOTDIR'' ''stat'' (join_path segs))"
    using pl by (simp add: posix_stat_def lookup_path_def parse_join join_nonempty)
  have "namei 40 fs True [] ?init = Inl ''ENOTDIR''
        \<or> (namei 40 fs True [] ?init = Inr ?init \<and> entry fs ?init = Some File)"
  proof (cases "?n < length ?init")
    case True
    have "\<forall>m < ?n. entry fs ([] @ take m ?init) = Some Dir"
      using below True by (simp add: take_butlast_lt)
    moreover have "entry fs ([] @ take ?n ?init) = Some File"
      using at True by (simp add: take_butlast_lt)
    ultimately have "namei 40 fs True [] ?init = Inl ''ENOTDIR''"
      using True by (rule namei_file)
    then show ?thesis ..
  next
    case False
    then have len: "?n = length ?init" using n by simp
    then have qi: "q = ?init" using qt by (simp add: butlast_conv_take)
    have "\<forall>m < length ?init. entry fs ([] @ take m ?init) = Some Dir"
      using below len by (simp add: take_butlast_lt)
    then have "namei 40 fs True [] ?init = Inr ([] @ ?init)"
      using q(2) qi by (intro namei_dirs) auto
    then show ?thesis using q(2) qi by simp
  qed
  then show "posix_mkdir cwd (join_path segs) m fs =
           (Some (SysError ''ENOTDIR'' ''mkdir'' (join_path segs)), fs)"
    using ne pl
    by (auto simp: posix_mkdir_def lookup_parent_def parse_join join_nonempty Let_def)
qed

section \<open>The promise of createDirectory\<close>

lemma createDirectory_mkdirp:
  "createDirectory env p m s =
     (case mkdirp env p (if m = JUndefined then JNum 511 else m) s of
        None \<Rightarrow> None
      | Some (None, s') \<Rightarrow> Some (Resolved (), s')
      | Some (Some e, s') \<Rightarrow> Some (Rejected e, s'))"
  by (simp add: createDirectory_def new_Promise_def resolve_def reject_def
      split: option.splits prod.splits)

lemma createDirectory_resolved_iff:
  "createDirectory env p m s = Some (Resolved (), s')
     \<longleftrightarrow> mkdirp env p (if m = JUndefined then JNum 511 else m) s = Some (None, s')"
  by (auto simp: createDirectory_mkdirp split: option.splits prod.splits)

lemma list_all_prefixes: "list_all P (prefixes xs) \<longleftrightarrow> (\<forall>q. prefix q xs \<longrightarrow> P q)"
  by (simp add: list_all_iff Ball_def)

lemma mkdirp_of_resolved:
  "mkdirp (posix cwd) p m fs = mkdirp (posix cwd) (join_path (parse_path cwd p)) m fs"
proof -
  have "mkdirp (posix cwd) (path_resolve (posix cwd) p) m fs = mkdirp (posix cwd) p m fs"
    by (rule mkdirp_resolved) (simp add: resolve_resolve)
  then show ?thesis by (simp add: posix_resolve_def)
qed

lemma createDirectory_rejected_iff:
  "createDirectory env p m s = Some (Rejected e, s')
     \<longleftrightarrow> mkdirp env p (if m = JUndefined then JNum 511 else m) s = Some (Some e, s')"
  by (auto simp: createDirectory_mkdirp split: option.splits prod.splits)

lemma strict_prefixes_dirs:
  "list_all (\<lambda>r. r = q \<or> entry fs r = Some Dir) (prefixes q)
   \<Longrightarrow> \<forall>r. strict_prefix r q \<longrightarrow> entry fs r = Some Dir"
  by (auto simp: list_all_prefixes strict_prefix_def)

section \<open>Creating a directory and its ancestors\<close>

text \<open>
  C1 (missing ancestors are created). On the tree platform, for every working directory
  and every path whose segment prefixes are each absent or a directory, on a writable
  file system, \<open>createDirectory\<close> returns, its promise is resolved, and afterwards the
  path and every ancestor of it is a directory. On every platform, when the first
  \<open>mkdir\<close> fails with the code \<open>'ENOENT'\<close>, \<open>mkdirp\<close> is: \<open>mkdirp\<close> on the parent
  directory and, if that reports no error, \<open>mkdirp\<close> on the path again; an error of the
  parent's run is reported as it is.
\<close>

theorem createDirectory_creates_ancestors:
  "(creatable fs (parse_path cwd p)
      \<longrightarrow> (\<exists>fs'. createDirectory (posix cwd) p mode fs = Some (Resolved (), fs')
                \<and> all_directories fs' (parse_path cwd p)))
   \<and> (fs_mkdir env (path_resolve env p') (if mode' = JUndefined then JNum 511 else mode') s
          = (Some err, s1) \<and> code err = Some ''ENOENT''
      \<longrightarrow> mkdirp env p' mode' s =
           (case mkdirp env (path_dirname env (path_resolve env p'))
                   (if mode' = JUndefined then JNum 511 else mode') s1 of
              None \<Rightarrow> None
            | Some (Some e, s2) \<Rightarrow> Some (Some e, s2)
            | Some (None, s2) \<Rightarrow>
                mkdirp env (path_resolve env p')
                  (if mode' = JUndefined then JNum 511 else mode') s2))"
proof (intro conjI impI)
  assume c: "creatable fs (parse_path cwd p)"
  let ?segs = "parse_path cwd p"
  let ?mode = "if mode = JUndefined then JNum 511 else mode"
  have "plain ?segs" by (rule parse_path_plain)
  moreover have "\<not> readonly fs" using c by (simp add: creatable_def)
  moreover have "\<forall>q. prefix q ?segs \<longrightarrow> entry fs q = None \<or> entry fs q = Some Dir"
    using c by (simp add: creatable_def list_all_prefixes)
  ultimately obtain fs' where
    "mkdirp (posix cwd) (join_path ?segs) ?mode fs = Some (None, fs')"
    "\<forall>q. prefix q ?segs \<longrightarrow> entry fs' q = Some Dir"
    using mkdirp_posix_creates [of ?segs fs cwd ?mode] by blast
  then have "createDirectory (posix cwd) p mode fs = Some (Resolved (), fs')
             \<and> all_directories fs' ?segs"
    by (simp add: createDirectory_resolved_iff mkdirp_of_resolved [symmetric]
        all_directories_def list_all_prefixes)
  then show "\<exists>fs'. createDirectory (posix cwd) p mode fs = Some (Resolved (), fs')
                \<and> all_directories fs' ?segs" ..
next
  assume a: "fs_mkdir env (path_resolve env p') (if mode' = JUndefined then JNum 511 else mode') s
          = (Some err, s1) \<and> code err = Some ''ENOENT''"
  from a have a1: "fs_mkdir env (path_resolve env p')
      (if mode' = JUndefined then JNum 511 else mode') s = (Some err, s1)" ..
  from a have a2: "code err = Some ''ENOENT''" ..
  from a1 a2 show "mkdirp env p' mode' s =
           (case mkdirp env (path_dirname env (path_resolve env p'))
                   (if mode' = JUndefined then JNum 511 else mode') s1 of
              None \<Rightarrow> None
            | Some (Some e, s2) \<Rightarrow> Some (Some e, s2)
            | Some (None, s2) \<Rightarrow>
                mkdirp env (path_resolve env p')
                  (if mode' = JUndefined then JNum 511 else mode') s2)"
    by (rule mkdirp_missing)
qed

theorem createDirectory_creates_ancestors_witness:
  "creatable \<lparr>entries = [([''tmp''], Dir)], readonly = False\<rparr> (parse_path ''/tmp'' ''a/b/c'')
   \<and> (\<exists>fs'. createDirectory (posix ''/tmp'') ''a/b/c'' JUndefined
               \<lparr>entries = [([''tmp''], Dir)], readonly = False\<rparr> = Some (Resolved (), fs')
            \<and> all_directories fs' (parse_path ''/tmp'' ''a/b/c''))
   \<and> createDirectory (posix ''/tmp'') ''a/b/c'' JUndefined
         \<lparr>entries = [([''tmp''], Dir)], readonly = False\<rparr>
       = Some (Resolved (),
           \<lparr>entries = [([''tmp'', ''a'', ''b'', ''c''], Dir), ([''tmp'', ''a'', ''b''], Dir),
                        ([''tmp'', ''a''], Dir), ([''tmp''], Dir)], readonly = False\<rparr>)
   \<and> fs_mkdir (posix ''/tmp'') (path_resolve (posix ''/tmp'') ''a/b'')
         (if JUndefined = JUndefined then JNum 511 else JUndefined)
         \<lparr>entries = [([''tmp''], Dir)], readonly = False\<rparr>
       = (Some (SysError ''ENOENT'' ''mkdir'' ''/tmp/a/b''),
          \<lparr>entries = [([''tmp''], Dir)], readonly = False\<rparr>)
   \<and> code (SysError ''ENOENT'' ''mkdir'' ''/tmp/a/b'') = Some ''ENOENT''
   \<and> mkdirp (posix ''/tmp'') ''a/b'' JUndefined \<lparr>entries = [([''tmp''], Dir)], readonly = False\<rparr>
       = (case mkdirp (posix ''/tmp'')
                 (path_dirname (posix ''/tmp'') (path_resolve (posix ''/tmp'') ''a/b''))
                 (if JUndefined = JUndefined then JNum 511 else JUndefined)
                 \<lparr>entries = [([''tmp''], Dir)], readonly = False\<rparr> of
            None \<Rightarrow> None
          | Some (Some e, s2) \<Rightarrow> Some (Some e, s2)
          | Some (None, s2) \<Rightarrow>
              mkdirp (posix ''/tmp'') (path_resolve (posix ''/tmp'') ''a/b'')
                (if JUndefined = JUndefined then JNum 511 else JUndefined) s2)"
proof -
  have h1: "creatable \<lparr>entries = [([''tmp''], Dir)], readonly = False\<rparr>
              (parse_path ''/tmp'' ''a/b/c'')"
    by code_simp
  have v: "createDirectory (posix ''/tmp'') ''a/b/c'' JUndefined
         \<lparr>entries = [([''tmp''], Dir)], readonly = False\<rparr>
       = Some (Resolved (),
           \<lparr>entries = [([''tmp'', ''a'', ''b'', ''c''], Dir), ([''tmp'', ''a'', ''b''], Dir),
                        ([''tmp'', ''a''], Dir), ([''tmp''], Dir)], readonly = False\<rparr>)"
    by code_simp
  have h2: "fs_mkdir (posix ''/tmp'') (path_resolve (posix ''/tmp'') ''a/b'')
         (if JUndefined = JUndefined then JNum 511 else JUndefined)
         \<lparr>entries = [([''tmp''], Dir)], readonly = False\<rparr>
       = (Some (SysError ''ENOENT'' ''mkdir'' ''/tmp/a/b''),
          \<lparr>entries = [([''tmp''], Dir)], readonly = False\<rparr>)
     \<and> code (SysError ''ENOENT'' ''mkdir'' ''/tmp/a/b'') = Some ''ENOENT''"
    by code_simp
  note t = createDirectory_creates_ancestors
    [of "\<lparr>entries = [([''tmp''], Dir)], readonly = False\<rparr>" "''/tmp''" "''a/b/c''" JUndefined
        "posix ''/tmp''" "''a/b''" JUndefined "\<lparr>entries = [([''tmp''], Dir)], readonly = False\<rparr>"
        "SysError ''ENOENT'' ''mkdir'' ''/tmp/a/b''"
        "\<lparr>entries = [([''tmp''], Dir)], readonly = False\<rparr>"]
  from t h1 have a: "\<exists>fs'. createDirectory (posix ''/tmp'') ''a/b/c'' JUndefined
               \<lparr>entries = [([''tmp''], Dir)], readonly = False\<rparr> = Some (Resolved (), fs')
            \<and> all_directories fs' (parse_path ''/tmp'' ''a/b/c'')"
    by blast
  from t h2 have b: "mkdirp (posix ''/tmp'') ''a/b'' JUndefined \<lparr>entries = [([''tmp''], Dir)], readonly = False\<rparr>
       = (case mkdirp (posix ''/tmp'')
                 (path_dirname (posix ''/tmp'') (path_resolve (posix ''/tmp'') ''a/b''))
                 (if JUndefined = JUndefined then JNum 511 else JUndefined)
                 \<lparr>entries = [([''tmp''], Dir)], readonly = False\<rparr> of
            None \<Rightarrow> None
          | Some (Some e, s2) \<Rightarrow> Some (Some e, s2)
          | Some (None, s2) \<Rightarrow>
              mkdirp (posix ''/tmp'') (path_resolve (posix ''/tmp'') ''a/b'')
                (if JUndefined = JUndefined then JNum 511 else JUndefined) s2)"
    by blast
  from h1 a v h2 b show ?thesis by (intro conjI) (simp_all only: simp_thms)
qed

text \<open>
  C6 (idempotence). On the tree platform, for every path and every tree (symbolic links
  included): when \<open>createDirectory\<close> resolves and leaves the tree \<open>fs'\<close>, the same call
  on \<open>fs'\<close> resolves too and leaves exactly \<open>fs'\<close>.
\<close>

theorem createDirectory_idempotent:
  "createDirectory (posix cwd) p mode fs = Some (Resolved (), fs')
   \<Longrightarrow> createDirectory (posix cwd) p mode fs' = Some (Resolved (), fs')"
  unfolding createDirectory_resolved_iff
  by (rule mkdirp_idempotent [OF posix_laws])

theorem createDirectory_idempotent_witness:
  "createDirectory (posix ''/'') ''/a/b'' JUndefined \<lparr>entries = [], readonly = False\<rparr>
     = Some (Resolved (), \<lparr>entries = [([''a'', ''b''], Dir), ([''a''], Dir)], readonly = False\<rparr>)
   \<and> createDirectory (posix ''/'') ''/a/b'' JUndefined
       \<lparr>entries = [([''a'', ''b''], Dir), ([''a''], Dir)], readonly = False\<rparr>
     = Some (Resolved (), \<lparr>entries = [([''a'', ''b''], Dir), ([''a''], Dir)], readonly = False\<rparr>)"
proof -
  have first: "createDirectory (posix ''/'') ''/a/b'' JUndefined \<lparr>entries = [], readonly = False\<rparr>
     = Some (Resolved (), \<lparr>entries = [([''a'', ''b''], Dir), ([''a''], Dir)], readonly = False\<rparr>)"
    by code_simp
  from createDirectory_idempotent [OF first] first show ?thesis by simp
qed

section \<open>Failures of the first mkdir other than ENOENT\<close>

text \<open>
  C2, as the code has it. On every platform, when the first \<open>mkdir\<close> fails with an
  error whose code is not \<open>'ENOENT'\<close> (\<open>'EEXIST'\<close> or any other), no further
  \<open>mkdir\<close> is tried and the outcome is that of \<open>stat\<close> on the path: rejected with
  the error of \<open>stat\<close> when \<open>stat\<close> fails, rejected with the error
  \<open>path + ' is already a file'\<close> when the path is not a directory, resolved when it
  is one. The error of \<open>mkdir\<close> itself does not reach the caller.
\<close>

theorem createDirectory_other_error:
  "fs_mkdir env (path_resolve env p) (if mode = JUndefined then JNum 511 else mode) s
     = (Some err, s1)
   \<Longrightarrow> code err \<noteq> Some ''ENOENT''
   \<Longrightarrow> createDirectory env p mode s =
       Some (case fs_stat env (path_resolve env p) s1 of
               Inl e \<Rightarrow> Rejected e
             | Inr st \<Rightarrow>
                 if isDirectory st then Resolved ()
                 else Rejected (PlainError (path_resolve env p @ '' is already a file'')), s1)"
proof -
  assume mk: "fs_mkdir env (path_resolve env p) (if mode = JUndefined then JNum 511 else mode) s
     = (Some err, s1)" and c: "code err \<noteq> Some ''ENOENT''"
  let ?mode = "if mode = JUndefined then JNum 511 else mode"
  have "fs_mkdir env (path_resolve env p) (if ?mode = JUndefined then JNum 511 else ?mode) s
     = (Some err, s1)" using mk by simp
  from mkdirp_not_missing [OF this c] show ?thesis
    by (simp add: createDirectory_mkdirp split: sum.splits)
qed

text \<open>
  The claim as stated fails on a read-only file system: \<open>mkdir /a\<close> fails with
  \<open>EROFS\<close>, and \<open>createDirectory\<close> rejects with the \<open>ENOENT\<close> of \<open>stat\<close>.
\<close>

theorem createDirectory_other_error_counterexample:
  "fs_mkdir (posix ''/'') (path_resolve (posix ''/'') ''/a'') (JNum 511)
       \<lparr>entries = [], readonly = True\<rparr>
     = (Some (SysError ''EROFS'' ''mkdir'' ''/a''), \<lparr>entries = [], readonly = True\<rparr>)
   \<and> createDirectory (posix ''/'') ''/a'' JUndefined \<lparr>entries = [], readonly = True\<rparr>
     = Some (Rejected (SysError ''ENOENT'' ''stat'' ''/a''), \<lparr>entries = [], readonly = True\<rparr>)
   \<and> createDirectory (posix ''/'') ''/a'' JUndefined \<lparr>entries = [], readonly = True\<rparr>
     \<noteq> Some (Rejected (SysError ''EROFS'' ''mkdir'' ''/a''), \<lparr>entries = [], readonly = True\<rparr>)"
  by code_simp

theorem createDirectory_other_error_witness:
  "fs_mkdir (posix ''/'') (path_resolve (posix ''/'') ''/a'')
       (if JUndefined = JUndefined then JNum 511 else JUndefined)
       \<lparr>entries = [], readonly = True\<rparr>
     = (Some (SysError ''EROFS'' ''mkdir'' ''/a''), \<lparr>entries = [], readonly = True\<rparr>)
   \<and> code (SysError ''EROFS'' ''mkdir'' ''/a'') \<noteq> Some ''ENOENT''
   \<and> createDirectory (posix ''/'') ''/a'' JUndefined \<lparr>entries = [], readonly = True\<rparr>
     = Some (case fs_stat (posix ''/'') (path_resolve (posix ''/'') ''/a'')
                    \<lparr>entries = [], readonly = True\<rparr> of
               Inl e \<Rightarrow> Rejected e
             | Inr st \<Rightarrow>
                 if isDirectory st then Resolved ()
                 else Rejected (PlainError
                        (path_resolve (posix ''/'') ''/a'' @ '' is already a file'')),
             \<lparr>entries = [], readonly = True\<rparr>)"
proof -
  have mk: "fs_mkdir (posix ''/'') (path_resolve (posix ''/'') ''/a'')
       (if JUndefined = JUndefined then JNum 511 else JUndefined)
       \<lparr>entries = [], readonly = True\<rparr>
     = (Some (SysError ''EROFS'' ''mkdir'' ''/a''), \<lparr>entries = [], readonly = True\<rparr>)"
    by code_simp
  have c: "code (SysError ''EROFS'' ''mkdir'' ''/a'') \<noteq> Some ''ENOENT''" by simp
  from createDirectory_other_error [OF mk c] mk c show ?thesis
    by (intro conjI)
qed

section \<open>A file in the way\<close>

text \<open>
  C3, as the code has it. On the tree platform: when \<open>stat\<close> (which follows symbolic
  links) reports an entry at the path that is not a directory, \<open>createDirectory\<close>
  rejects with the error \<open>path + ' is already a file'\<close>; when a regular file occupies a
  proper ancestor of the path, it rejects with the \<open>ENOTDIR\<close> error of \<open>stat\<close>. In
  both cases the tree is left as it was.
\<close>

theorem createDirectory_conflict:
  "(fs_stat (posix cwd) (path_resolve (posix cwd) p) fs = Inr st \<and> \<not> isDirectory st
      \<longrightarrow> createDirectory (posix cwd) p mode fs =
            Some (Rejected (PlainError (path_resolve (posix cwd) p @ '' is already a file'')), fs))
   \<and> (file_above fs q (parse_path cwd p)
      \<longrightarrow> createDirectory (posix cwd) p mode fs =
            Some (Rejected (SysError ''ENOTDIR'' ''stat'' (path_resolve (posix cwd) p)), fs))"
proof (intro conjI impI)
  let ?mode = "if mode = JUndefined then JNum 511 else mode"
  let ?path = "posix_resolve cwd p"
  assume "fs_stat (posix cwd) (path_resolve (posix cwd) p) fs = Inr st \<and> \<not> isDirectory st"
  then have st: "posix_stat cwd ?path fs = Inr st" and nd: "\<not> isDirectory st" by simp_all
  have mk: "fs_mkdir (posix cwd) (path_resolve (posix cwd) p)
      (if ?mode = JUndefined then JNum 511 else ?mode) fs
      = (Some (SysError ''EEXIST'' ''mkdir'' ?path), fs)"
    using posix_stat_exists [OF st] by simp
  have "code (SysError ''EEXIST'' ''mkdir'' ?path) \<noteq> Some ''ENOENT''" by simp
  from mkdirp_not_missing [OF mk this] st nd
  show "createDirectory (posix cwd) p mode fs =
            Some (Rejected (PlainError (path_resolve (posix cwd) p @ '' is already a file'')), fs)"
    by (simp add: createDirectory_rejected_iff)
next
  let ?mode = "if mode = JUndefined then JNum 511 else mode"
  let ?segs = "parse_path cwd p"
  let ?path = "posix_resolve cwd p"
  assume f: "file_above fs q (parse_path cwd p)"
  have pl: "plain ?segs" by (rule parse_path_plain)
  have q: "strict_prefix q ?segs" "entry fs q = Some File"
    using f by (simp_all add: file_above_def)
  have dirs: "\<forall>r. strict_prefix r q \<longrightarrow> entry fs r = Some Dir"
    using f by (intro strict_prefixes_dirs) (simp add: file_above_def)
  have path: "?path = join_path ?segs" by (simp add: posix_resolve_def)
  have mk: "fs_mkdir (posix cwd) (path_resolve (posix cwd) p)
      (if ?mode = JUndefined then JNum 511 else ?mode) fs
      = (Some (SysError ''ENOTDIR'' ''mkdir'' ?path), fs)"
    using posix_file_in_the_way(1) [OF pl q dirs] by (simp add: path)
  have st: "posix_stat cwd ?path fs = Inl (SysError ''ENOTDIR'' ''stat'' ?path)"
    using posix_file_in_the_way(2) [OF pl q dirs] by (simp add: path)
  have "code (SysError ''ENOTDIR'' ''mkdir'' ?path) \<noteq> Some ''ENOENT''" by simp
  from mkdirp_not_missing [OF mk this] st
  show "createDirectory (posix cwd) p mode fs =
            Some (Rejected (SysError ''ENOTDIR'' ''stat'' (path_resolve (posix cwd) p)), fs)"
    by (simp add: createDirectory_rejected_iff)
qed

text \<open>
  The claim as stated fails for a file at an ancestor: with a regular file at \<open>/a\<close>,
  \<open>createDirectory('/a/b')\<close> rejects with the error of \<open>stat\<close>, whose code is
  \<open>ENOTDIR\<close>, not with an error made by \<open>mkdirp\<close>.
\<close>

theorem createDirectory_conflict_counterexample:
  "entry \<lparr>entries = [([''a''], File)], readonly = False\<rparr> [''a''] = Some File
   \<and> createDirectory (posix ''/'') ''/a/b'' JUndefined \<lparr>entries = [([''a''], File)], readonly = False\<rparr>
       = Some (Rejected (SysError ''ENOTDIR'' ''stat'' ''/a/b''),
               \<lparr>entries = [([''a''], File)], readonly = False\<rparr>)
   \<and> createDirectory (posix ''/'') ''/a/b'' JUndefined \<lparr>entries = [([''a''], File)], readonly = False\<rparr>
       \<noteq> Some (Rejected (PlainError ''/a/b is already a file''),
               \<lparr>entries = [([''a''], File)], readonly = False\<rparr>)
   \<and> createDirectory (posix ''/'') ''/a/b'' JUndefined \<lparr>entries = [([''a''], File)], readonly = False\<rparr>
       \<noteq> Some (Rejected (PlainError ''/a is already a file''),
               \<lparr>entries = [([''a''], File)], readonly = False\<rparr>)"
  by code_simp

theorem createDirectory_conflict_witness:
  "fs_stat (posix ''/'') (path_resolve (posix ''/'') ''/a'')
       \<lparr>entries = [([''a''], File)], readonly = False\<rparr>
     = Inr \<lparr>isDirectory = False, isFile = True, isSymbolicLink = False\<rparr>
   \<and> \<not> isDirectory \<lparr>isDirectory = False, isFile = True, isSymbolicLink = False\<rparr>
   \<and> createDirectory (posix ''/'') ''/a'' JUndefined \<lparr>entries = [([''a''], File)], readonly = False\<rparr>
     = Some (Rejected (PlainError (path_resolve (posix ''/'') ''/a'' @ '' is already a file'')),
             \<lparr>entries = [([''a''], File)], readonly = False\<rparr>)
   \<and> path_resolve (posix ''/'') ''/a'' @ '' is already a file'' = ''/a is already a file''
   \<and> file_above \<lparr>entries = [([''a''], Dir), ([''a'', ''b''], File)], readonly = False\<rparr>
         [''a'', ''b''] (parse_path ''/a'' ''b/c/d'')
   \<and> createDirectory (posix ''/a'') ''b/c/d'' JUndefined
         \<lparr>entries = [([''a''], Dir), ([''a'', ''b''], File)], readonly = False\<rparr>
     = Some (Rejected (SysError ''ENOTDIR'' ''stat'' (path_resolve (posix ''/a'') ''b/c/d'')),
             \<lparr>entries = [([''a''], Dir), ([''a'', ''b''], File)], readonly = False\<rparr>)
   \<and> path_resolve (posix ''/a'') ''b/c/d'' = ''/a/b/c/d''"
proof -
  have h1: "fs_stat (posix ''/'') (path_resolve (posix ''/'') ''/a'')
       \<lparr>entries = [([''a''], File)], readonly = False\<rparr>
     = Inr \<lparr>isDirectory = False, isFile = True, isSymbolicLink = False\<rparr>
   \<and> \<not> isDirectory \<lparr>isDirectory = False, isFile = True, isSymbolicLink = False\<rparr>"
    by code_simp
  have h2: "file_above \<lparr>entries = [([''a''], Dir), ([''a'', ''b''], File)], readonly = False\<rparr>
         [''a'', ''b''] (parse_path ''/a'' ''b/c/d'')"
    by code_simp
  have r1: "path_resolve (posix ''/'') ''/a'' @ '' is already a file'' = ''/a is already a file''"
    by code_simp
  have r2: "path_resolve (posix ''/a'') ''b/c/d'' = ''/a/b/c/d''"
    by code_simp
  have c1: "createDirectory (posix ''/'') ''/a'' JUndefined \<lparr>entries = [([''a''], File)], readonly = False\<rparr>
     = Some (Rejected (PlainError (path_resolve (posix ''/'') ''/a'' @ '' is already a file'')),
             \<lparr>entries = [([''a''], File)], readonly = False\<rparr>)"
    using createDirectory_conflict
      [of "''/''" "''/a''" "\<lparr>entries = [([''a''], File)], readonly = False\<rparr>"
          "\<lparr>isDirectory = False, isFile = True, isSymbolicLink = False\<rparr>" JUndefined] h1
    by blast
  have c2: "createDirectory (posix ''/a'') ''b/c/d'' JUndefined
         \<lparr>entries = [([''a''], Dir), ([''a'', ''b''], File)], readonly = False\<rparr>
     = Some (Rejected (SysError ''ENOTDIR'' ''stat'' (path_resolve (posix ''/a'') ''b/c/d'')),
             \<lparr>entries = [([''a''], Dir), ([''a'', ''b''], File)], readonly = False\<rparr>)"
    using createDirectory_conflict
      [of "''/a''" "''b/c/d''" "\<lparr>entries = [([''a''], Dir), ([''a'', ''b''], File)], readonly = False\<rparr>"
          _ JUndefined "[''a'', ''b'']"] h2
    by blast
  from h1 h2 r1 r2 c1 c2 show ?thesis by (intro conjI) (simp_all only: simp_thms)
qed

section \<open>Dangling symbolic links\<close>

lemma exists_on_dangling_symlink:
  assumes "fs_lstat env p s = Inr st" "isSymbolicLink st"
    and "fs_stat env p s = Inl e" "code e = Some ''ENOENT''"
  shows "exists env p s = Resolved True"
    and "legacy_exists env p s = (Resolved False, s)"
  using assms by (simp_all add: exists_eq legacy_exists_eq)

text \<open>
  C5 (a dangling symbolic link exists). The second API's \<open>exists\<close> queries \<open>lstat\<close>
  and answers \<open>true\<close>. The first API's \<open>exists\<close> queries \<open>stat\<close>, which follows
  the link, and answers \<open>false\<close>: here for a link \<open>/l\<close> whose target \<open>/gone\<close> is
  absent.
\<close>

theorem legacy_exists_dangling_symlink:
  "fs_lstat (posix ''/'') ''/l'' \<lparr>entries = [([''l''], Link [''gone''])], readonly = False\<rparr>
     = Inr \<lparr>isDirectory = False, isFile = False, isSymbolicLink = True\<rparr>
   \<and> fs_stat (posix ''/'') ''/l'' \<lparr>entries = [([''l''], Link [''gone''])], readonly = False\<rparr>
     = Inl (SysError ''ENOENT'' ''stat'' ''/l'')
   \<and> legacy_exists (posix ''/'') ''/l'' \<lparr>entries = [([''l''], Link [''gone''])], readonly = False\<rparr>
     = (Resolved False, \<lparr>entries = [([''l''], Link [''gone''])], readonly = False\<rparr>)
   \<and> exists (posix ''/'') ''/l'' \<lparr>entries = [([''l''], Link [''gone''])], readonly = False\<rparr>
     = Resolved True"
  by code_simp

section \<open>Deleting a directory\<close>

text \<open>
  C7 (delete is the recursive delete). The second API's \<open>del\<close> is \<open>rimraf\<close>
  (\<open>del_eq\<close>). The first API's \<open>del\<close> is \<open>unlink\<close>, which refuses a directory:
  here for a directory \<open>/d\<close> that holds a file.
\<close>

theorem legacy_del_directory:
  "legacy_del (posix ''/'') ''/d''
       \<lparr>entries = [([''d''], Dir), ([''d'', ''f''], File), ([''e''], File)], readonly = False\<rparr>
     = (Rejected (SysError ''EISDIR'' ''unlink'' ''/d''),
        \<lparr>entries = [([''d''], Dir), ([''d'', ''f''], File), ([''e''], File)], readonly = False\<rparr>)
   \<and> rimraf (posix ''/'') ''/d''
       \<lparr>entries = [([''d''], Dir), ([''d'', ''f''], File), ([''e''], File)], readonly = False\<rparr>
     = (None, \<lparr>entries = [([''e''], File)], readonly = False\<rparr>)
   \<and> del (posix ''/'') ''/d''
       \<lparr>entries = [([''d''], Dir), ([''d'', ''f''], File), ([''e''], File)], readonly = False\<rparr>
     = (Resolved (), \<lparr>entries = [([''e''], File)], readonly = False\<rparr>)"
  by code_simp

end
